theory Spec2Isabelle
  imports Complex_Main "HOL-Library.Multiset"
begin

section \<open>Strings and numbers of the JavaScript runtime\<close>

text \<open>
  Strings are byte strings: ASCII text is written as a literal, and the non-ASCII
  literals of the source are given by their UTF-8 bytes. The worker only concatenates,
  joins and compares strings, which does not depend on the encoding.

  A JavaScript number that arises here is either an integer (a time value in
  milliseconds, a difference of two of them, a count of minutes) or \<open>NaN\<close>, which is what
  \<open>new Date(s).getTime()\<close> gives for a string that is no date. The model computes with
  integers; the runtime computes with doubles, which is the same as long as two time
  values are less than \<open>2^53\<close> milliseconds apart (some 285000 years).
\<close>

datatype number = NaN | Num int

text \<open>\<open>n.toString()\<close> for a non-negative integer: its decimal digits.\<close>

fun nat_toString :: "nat \<Rightarrow> string" where
  "nat_toString n =
     (if n < 10 then [''0123456789'' ! n]
      else nat_toString (n div 10) @ [''0123456789'' ! (n mod 10)])"

declare nat_toString.simps [simp del]

text \<open>\<open>s.padStart(n, c)\<close> for a one-character filler.\<close>

definition padStart :: "nat \<Rightarrow> char \<Rightarrow> string \<Rightarrow> string" where
  "padStart n c s = replicate (n - length s) c @ s"

text \<open>\<open>parts.join(sep)\<close>.\<close>

fun join :: "string \<Rightarrow> string list \<Rightarrow> string" where
  "join sep [] = []"
| "join sep [p] = p"
| "join sep (p # q # ps) = p @ sep @ join sep (q # ps)"

text \<open>
  \<open>Math.round((exitTime - enterTime) / 60000)\<close>. \<open>Math.round\<close> takes the nearest
  integer and, of two equally near ones, the one towards plus infinity: it is
  \<open>floor (x + 1/2)\<close>, here \<open>floor ((d + 30000) / 60000)\<close> on the millisecond difference
  \<open>d\<close>. A \<open>NaN\<close> operand gives \<open>NaN\<close>.
\<close>

fun minutes_between :: "number \<Rightarrow> number \<Rightarrow> number" where
  "minutes_between (Num exitTime) (Num enterTime) =
     Num ((exitTime - enterTime + 30000) div 60000)"
| "minutes_between _ _ = NaN"

text \<open>
  \<open>Math.min(x, ...xs)\<close> and \<open>Math.max(x, ...xs)\<close> on at least one argument: \<open>NaN\<close> as soon
  as one argument is \<open>NaN\<close>.
\<close>

fun Math_min2 :: "number \<Rightarrow> number \<Rightarrow> number" where
  "Math_min2 (Num a) (Num b) = Num (min a b)"
| "Math_min2 _ _ = NaN"

fun Math_max2 :: "number \<Rightarrow> number \<Rightarrow> number" where
  "Math_max2 (Num a) (Num b) = Num (max a b)"
| "Math_max2 _ _ = NaN"

definition Math_min :: "number \<Rightarrow> number list \<Rightarrow> number" where
  "Math_min x xs = foldl Math_min2 x xs"

definition Math_max :: "number \<Rightarrow> number list \<Rightarrow> number" where
  "Math_max x xs = foldl Math_max2 x xs"

section \<open>The Date object\<close>

text \<open>
  \<open>Date\<close> belongs to the runtime, not to the repository, so the model takes it as a
  parameter: \<open>getTime D s\<close> is \<open>new Date(s).getTime()\<close>, \<open>localTZA D t\<close> is the offset in
  milliseconds of the process's local time zone at the time value \<open>t\<close>, and
  \<open>toISOString D t\<close> is \<open>new Date(t).toISOString()\<close> for a valid time value. Every theorem
  below holds for any such runtime.
\<close>

record Date =
  getTime :: "string \<Rightarrow> number"
  localTZA :: "int \<Rightarrow> int"
  toISOString :: "int \<Rightarrow> string"

text \<open>
  \<open>d.getHours()\<close> and \<open>d.getMinutes()\<close> are the hour and the minute of the local time
  \<open>t + localTZA t\<close>; on an invalid date both are \<open>NaN\<close>, which \<open>toString\<close> prints as
  \<open>"NaN"\<close> and \<open>padStart(2, "0")\<close> leaves alone.
\<close>

definition getHours :: "Date \<Rightarrow> int \<Rightarrow> nat" where
  "getHours D t = nat (((t + localTZA D t) div 3600000) mod 24)"

definition getMinutes :: "Date \<Rightarrow> int \<Rightarrow> nat" where
  "getMinutes D t = nat (((t + localTZA D t) div 60000) mod 60)"

definition formatTime :: "Date \<Rightarrow> string \<Rightarrow> string" where
  "formatTime D isoStr =
     (case getTime D isoStr of
        NaN \<Rightarrow> padStart 2 CHR ''0'' ''NaN'' @ '':'' @ padStart 2 CHR ''0'' ''NaN''
      | Num t \<Rightarrow>
          (let h = padStart 2 CHR ''0'' (nat_toString (getHours D t));
               m = padStart 2 CHR ''0'' (nat_toString (getMinutes D t))
           in h @ '':'' @ m))"

section \<open>Events, stay segments, digests\<close>

text \<open>
  Of a \<open>RawEvent\<close> the worker reads \<open>event_id\<close>, \<open>type\<close>, \<open>ts\<close> and, for a location event,
  the payload's \<open>event\<close> and \<open>place_id\<close>. The payload's \<open>event\<close> is kept as the string it
  is, since the \<open>switch\<close> of the scan has no default branch.
\<close>

record LocationPayload =
  event :: string
  place_id :: string

record RawEvent =
  event_id :: string
  type :: string
  ts :: string
  payload :: LocationPayload

record StaySegment =
  place_id :: string
  enter_at :: string
  exit_at :: "string option"
  duration_min :: "number option"

record DigestPayload =
  type :: string
  segments :: "StaySegment list"
  period_start :: string
  period_end :: string
  event_ids :: "string list"

record DigestResult =
  digest_id :: string
  message :: string
  payload :: DigestPayload

record OpenClawPayload =
  message :: string
  name :: string
  wakeMode :: string
  deliver :: bool
  channel :: string

section \<open>Sorting by timestamp\<close>

text \<open>
  \<open>Array.prototype.sort\<close> with the comparator \<open>(a, b) => getTime(a.ts) - getTime(b.ts)\<close>.
  The sort is stable, and a comparator result of \<open>NaN\<close> counts as \<open>+0\<close>: an element moves
  behind another one only where the comparator is positive. Insertion from the right end
  is such a stable sort. (When some timestamp does not parse the comparator is not
  consistent and ECMAScript leaves the order to the implementation; the model then shows
  one admissible order.)
\<close>

fun comparator_positive :: "number \<Rightarrow> bool" where
  "comparator_positive (Num v) = (0 < v)"
| "comparator_positive NaN = False"

fun js_minus :: "number \<Rightarrow> number \<Rightarrow> number" where
  "js_minus (Num a) (Num b) = Num (a - b)"
| "js_minus _ _ = NaN"

fun insert_sorted :: "('a \<Rightarrow> 'a \<Rightarrow> number) \<Rightarrow> 'a \<Rightarrow> 'a list \<Rightarrow> 'a list" where
  "insert_sorted cmp x [] = [x]"
| "insert_sorted cmp x (y # ys) =
     (if comparator_positive (cmp x y) then y # insert_sorted cmp x ys else x # y # ys)"

definition js_sort :: "('a \<Rightarrow> 'a \<Rightarrow> number) \<Rightarrow> 'a list \<Rightarrow> 'a list" where
  "js_sort cmp xs = foldr (insert_sorted cmp) xs []"

definition by_ts :: "Date \<Rightarrow> RawEvent \<Rightarrow> RawEvent \<Rightarrow> number" where
  "by_ts D a b = js_minus (getTime D (ts a)) (getTime D (ts b))"

definition locationEvents :: "Date \<Rightarrow> RawEvent list \<Rightarrow> RawEvent list" where
  "locationEvents D events =
     js_sort (by_ts D) (filter (\<lambda>e. RawEvent.type e = ''location'') events)"

section \<open>The stay segmentation scan\<close>

text \<open>
  The loop of \<open>aggregateLocationEvents\<close> keeps the array \<open>segments\<close>, the array \<open>eventIds\<close>
  and the reference \<open>currentSegment\<close>, which is \<open>null\<close> or points to an object that is also
  an element of \<open>segments\<close>: writing through the reference changes that element. The model
  keeps the reference as the index of the element (\<open>cur\<close>).
\<close>

record scan_state =
  segs :: "StaySegment list"
  ids :: "string list"
  cur :: "nat option"

definition scan_init :: scan_state where
  "scan_init = \<lparr>segs = [], ids = [], cur = None\<rparr>"

text \<open>
  \<open>currentSegment.exit_at = event.ts; currentSegment.duration_min = Math.round(...)\<close>
\<close>

definition close_segment :: "Date \<Rightarrow> string \<Rightarrow> StaySegment \<Rightarrow> StaySegment" where
  "close_segment D t seg =
     seg\<lparr>exit_at := Some t,
         duration_min := Some (minutes_between (getTime D t) (getTime D (enter_at seg)))\<rparr>"

definition open_segment :: "string \<Rightarrow> string \<Rightarrow> StaySegment" where
  "open_segment p t =
     \<lparr>StaySegment.place_id = p, enter_at = t, exit_at = None, duration_min = None\<rparr>"

definition instant_segment :: "string \<Rightarrow> string \<Rightarrow> StaySegment" where
  "instant_segment p t =
     \<lparr>StaySegment.place_id = p, enter_at = t, exit_at = Some t, duration_min = Some (Num 0)\<rparr>"

text \<open>\<open>currentSegment = {...}; segments.push(currentSegment)\<close>\<close>

definition start_segment :: "string \<Rightarrow> string \<Rightarrow> scan_state \<Rightarrow> scan_state" where
  "start_segment p t st =
     st\<lparr>segs := segs st @ [open_segment p t], cur := Some (length (segs st))\<rparr>"

definition on_enter :: "Date \<Rightarrow> string \<Rightarrow> string \<Rightarrow> scan_state \<Rightarrow> scan_state" where
  "on_enter D p t st =
     start_segment p t
       (case cur st of
          None \<Rightarrow> st
        | Some i \<Rightarrow>
            if exit_at (segs st ! i) = None
            then st\<lparr>segs := (segs st)[i := close_segment D t (segs st ! i)]\<rparr>
            else st)"

definition on_dwell :: "string \<Rightarrow> string \<Rightarrow> scan_state \<Rightarrow> scan_state" where
  "on_dwell p t st =
     (case cur st of
        None \<Rightarrow> start_segment p t st
      | Some i \<Rightarrow>
          if StaySegment.place_id (segs st ! i) \<noteq> p then start_segment p t st else st)"

definition on_exit :: "Date \<Rightarrow> string \<Rightarrow> string \<Rightarrow> scan_state \<Rightarrow> scan_state" where
  "on_exit D p t st =
     (case cur st of
        None \<Rightarrow> st\<lparr>segs := segs st @ [instant_segment p t]\<rparr>
      | Some i \<Rightarrow>
          if StaySegment.place_id (segs st ! i) = p
          then st\<lparr>segs := (segs st)[i := close_segment D t (segs st ! i)], cur := None\<rparr>
          else st\<lparr>segs := segs st @ [instant_segment p t]\<rparr>)"

text \<open>One iteration of the \<open>for\<close> loop.\<close>

definition scan_step :: "Date \<Rightarrow> scan_state \<Rightarrow> RawEvent \<Rightarrow> scan_state" where
  "scan_step D st e =
     (let p = LocationPayload.place_id (RawEvent.payload e);
          st1 = st\<lparr>ids := ids st @ [event_id e]\<rparr>
      in if event (RawEvent.payload e) = ''enter'' then on_enter D p (ts e) st1
         else if event (RawEvent.payload e) = ''dwell'' then on_dwell p (ts e) st1
         else if event (RawEvent.payload e) = ''exit'' then on_exit D p (ts e) st1
         else st1)"

definition scan :: "Date \<Rightarrow> RawEvent list \<Rightarrow> scan_state" where
  "scan D es = foldl (scan_step D) scan_init es"

definition aggregateLocationEvents ::
    "Date \<Rightarrow> RawEvent list \<Rightarrow> StaySegment list \<times> string list" where
  "aggregateLocationEvents D events =
     (if locationEvents D events = [] then ([], [])
      else (segs (scan D (locationEvents D events)), ids (scan D (locationEvents D events))))"

section \<open>The digest message and the digest\<close>

definition txt_no_events :: string where
  \<comment> \<open>the six kana of "no events"\<close>
  "txt_no_events =
     [CHR 0xE3, CHR 0x82, CHR 0xA4, CHR 0xE3, CHR 0x83, CHR 0x99, CHR 0xE3, CHR 0x83, CHR 0xB3,
      CHR 0xE3, CHR 0x83, CHR 0x88, CHR 0xE3, CHR 0x81, CHR 0xAA, CHR 0xE3, CHR 0x81, CHR 0x97]"

definition txt_arrow :: string where
  \<comment> \<open>space, U+2192 (rightwards arrow), space\<close>
  "txt_arrow = [CHR 0x20, CHR 0xE2, CHR 0x86, CHR 0x92, CHR 0x20]"

definition txt_arrived :: string where
  \<comment> \<open>the two kanji of "arrival"\<close>
  "txt_arrived = [CHR 0xE5, CHR 0x88, CHR 0xB0, CHR 0xE7, CHR 0x9D, CHR 0x80]"

definition txt_mail :: string where
  "txt_mail = [CHR 0xE3, CHR 0x83, CHR 0xA1, CHR 0xE3, CHR 0x83, CHR 0xBC, CHR 0xE3, CHR 0x83, CHR 0xAB]"

definition txt_task_change :: string where
  "txt_task_change =
     [CHR 0xE3, CHR 0x82, CHR 0xBF, CHR 0xE3, CHR 0x82, CHR 0xB9, CHR 0xE3, CHR 0x82, CHR 0xAF,
      CHR 0xE5, CHR 0xA4, CHR 0x89, CHR 0xE6, CHR 0x9B, CHR 0xB4]"

definition txt_vital :: string where
  "txt_vital =
     [CHR 0xE3, CHR 0x83, CHR 0x90, CHR 0xE3, CHR 0x82, CHR 0xA4, CHR 0xE3, CHR 0x82, CHR 0xBF,
      CHR 0xE3, CHR 0x83, CHR 0xAB]"

definition txt_count_suffix :: string where
  \<comment> \<open>the counter that follows each count\<close>
  "txt_count_suffix = [CHR 0xE4, CHR 0xBB, CHR 0xB6]"

text \<open>
  The callback of \<open>segments.map\<close> in \<open>buildDigestMessage\<close>. \<open>seg.exit_at && ...\<close> is false
  for \<open>null\<close> and for the empty string; \<open>!==\<close> compares the two strings as text.
\<close>

definition render_segment :: "Date \<Rightarrow> StaySegment \<Rightarrow> string" where
  "render_segment D seg =
     (let enter = formatTime D (enter_at seg)
      in case exit_at seg of
           None \<Rightarrow> enter @ '' '' @ StaySegment.place_id seg @ txt_arrived
         | Some x \<Rightarrow>
             if x \<noteq> [] \<and> x \<noteq> enter_at seg
             then enter @ ''-'' @ formatTime D x @ '' '' @ StaySegment.place_id seg
             else enter @ '' '' @ StaySegment.place_id seg @ txt_arrived)"

definition buildDigestMessage :: "Date \<Rightarrow> StaySegment list \<Rightarrow> string" where
  "buildDigestMessage D sgs =
     (if length sgs = 0 then ''[LocationDigest] '' @ txt_no_events
      else ''[LocationDigest] '' @ join txt_arrow (map (render_segment D) sgs))"

datatype js_error = RangeError | TypeError

text \<open>
  \<open>new Date(v).toISOString()\<close> throws a \<open>RangeError\<close> when \<open>v\<close> is \<open>NaN\<close>.
\<close>

fun date_toISOString :: "Date \<Rightarrow> number \<Rightarrow> js_error + string" where
  "date_toISOString D (Num t) = Inr (toISOString D t)"
| "date_toISOString D NaN = Inl RangeError"

definition count_of_type :: "string \<Rightarrow> RawEvent list \<Rightarrow> nat" where
  "count_of_type ty es = length (filter (\<lambda>e. RawEvent.type e = ty) es)"

definition nonLocationSummaryParts :: "RawEvent list \<Rightarrow> string list" where
  "nonLocationSummaryParts events =
     (let nonLocationEvents = filter (\<lambda>e. RawEvent.type e \<noteq> ''location'') events;
          emailCount = count_of_type ''email'' nonLocationEvents;
          todoCount = count_of_type ''todo'' nonLocationEvents;
          vitalCount = count_of_type ''vital'' nonLocationEvents
      in (if emailCount > 0 then [txt_mail @ nat_toString emailCount @ txt_count_suffix] else [])
       @ (if todoCount > 0 then [txt_task_change @ nat_toString todoCount @ txt_count_suffix] else [])
       @ (if vitalCount > 0 then [txt_vital @ nat_toString vitalCount @ txt_count_suffix] else []))"

text \<open>
  \<open>generateDigest\<close>. The identifier that \<open>crypto.randomUUID()\<close> draws is the argument
  \<open>uuid\<close>. The result is \<open>Inr None\<close> for \<open>null\<close>, \<open>Inr (Some d)\<close> for a digest, and
  \<open>Inl RangeError\<close> where \<open>toISOString\<close> throws.
\<close>

definition generateDigest ::
    "Date \<Rightarrow> string \<Rightarrow> RawEvent list \<Rightarrow> js_error + DigestResult option" where
  "generateDigest D uuid events =
     (case events of
        [] \<Rightarrow> Inr None
      | e # es \<Rightarrow>
          (let allEventIds = map event_id events;
               sgs = fst (aggregateLocationEvents D events);
               parts = nonLocationSummaryParts events;
               locationMessage = buildDigestMessage D sgs;
               msg = (if length parts > 0
                          then locationMessage @ '' | '' @ join '', '' parts
                          else locationMessage);
               timestamps = map (\<lambda>e. getTime D (ts e)) es;
               t0 = getTime D (ts e)
           in case date_toISOString D (Math_min t0 timestamps) of
                Inl err \<Rightarrow> Inl err
              | Inr periodStart \<Rightarrow>
                  (case date_toISOString D (Math_max t0 timestamps) of
                     Inl err \<Rightarrow> Inl err
                   | Inr periodEnd \<Rightarrow>
                       Inr (Some \<lparr>digest_id = uuid,
                                  DigestResult.message = msg,
                                  DigestResult.payload =
                                    \<lparr>DigestPayload.type = ''location'',
                                     segments = sgs,
                                     period_start = periodStart,
                                     period_end = periodEnd,
                                     event_ids = allEventIds\<rparr>\<rparr>))))"

definition buildOpenClawPayload :: "DigestResult \<Rightarrow> OpenClawPayload" where
  "buildOpenClawPayload digest =
     \<lparr>message = ''[digest:'' @ digest_id digest @ ''] '' @ DigestResult.message digest,
      name = ''EventDigest'',
      wakeMode = ''now'',
      deliver = True,
      channel = ''last''\<rparr>"

section \<open>JSON values and the envelope validator\<close>

text \<open>
  The request body is what \<open>JSON.parse\<close> returns: \<open>null\<close>, a boolean, a number, a string,
  an array, or a plain object with its own properties in order. A number is carried as
  the text \<open>ToString\<close> gives it (\<open>''0''\<close> for zero); nothing else of a number is read
  here. A property that is absent reads as \<open>undefined\<close>, which is \<open>None\<close>.
\<close>

datatype json =
    JNull
  | JBool bool
  | JNum string
  | JStr string
  | JArr "json list"
  | JObj "(string \<times> json) list"

fun get_property :: "json \<Rightarrow> string \<Rightarrow> json option" where
  "get_property (JObj kvs) k = map_of kvs k"
| "get_property _ k = None"

fun typeof :: "json option \<Rightarrow> string" where
  "typeof None = ''undefined''"
| "typeof (Some JNull) = ''object''"
| "typeof (Some (JBool b)) = ''boolean''"
| "typeof (Some (JNum n)) = ''number''"
| "typeof (Some (JStr s)) = ''string''"
| "typeof (Some (JArr xs)) = ''object''"
| "typeof (Some (JObj kvs)) = ''object''"

text \<open>\<open>!v\<close>: the values that count as false.\<close>

fun falsy :: "json option \<Rightarrow> bool" where
  "falsy None = True"
| "falsy (Some JNull) = True"
| "falsy (Some (JBool b)) = (\<not> b)"
| "falsy (Some (JNum n)) = (n = ''0'')"
| "falsy (Some (JStr s)) = (s = [])"
| "falsy (Some (JArr xs)) = False"
| "falsy (Some (JObj kvs)) = False"

fun isArray :: "json option \<Rightarrow> bool" where
  "isArray (Some (JArr xs)) = True"
| "isArray _ = False"

text \<open>
  \<open>ToString\<close>, which \<open>RegExp.prototype.test\<close> applies to its argument. An array is joined
  with commas, \<open>null\<close> elements giving the empty string. A plain object prints as
  \<open>[object Object]\<close> through \<open>Object.prototype.toString\<close>, unless it has an own property
  \<open>toString\<close>: that one is found first, it is no function (no JSON value is), the
  inherited \<open>valueOf\<close> returns the object itself, an own \<open>valueOf\<close> is no function either,
  and the conversion throws a \<open>TypeError\<close>.
\<close>

fun js_ToString :: "json \<Rightarrow> js_error + string"
and elements_ToString :: "json list \<Rightarrow> js_error + string list" where
  "js_ToString JNull = Inr ''null''"
| "js_ToString (JBool b) = Inr (if b then ''true'' else ''false'')"
| "js_ToString (JNum n) = Inr n"
| "js_ToString (JStr s) = Inr s"
| "js_ToString (JArr xs) =
     (case elements_ToString xs of Inl err \<Rightarrow> Inl err | Inr ps \<Rightarrow> Inr (join '','' ps))"
| "js_ToString (JObj kvs) =
     (if map_of kvs ''toString'' \<noteq> None then Inl TypeError else Inr ''[object Object]'')"
| "elements_ToString [] = Inr []"
| "elements_ToString (x # xs) =
     (case (if x = JNull then Inr [] else js_ToString x) of
        Inl err \<Rightarrow> Inl err
      | Inr p \<Rightarrow> (case elements_ToString xs of Inl err \<Rightarrow> Inl err | Inr ps \<Rightarrow> Inr (p # ps)))"

text \<open>
  \<open>UUID_V4_REGEX\<close>, anchored at both ends and case-insensitive: 8, 4, 4, 4 and 12
  hexadecimal digits between hyphens, the third group starting with a digit from 1 to 5
  and the fourth with one of 8, 9, a, b.
\<close>

definition is_hex :: "char \<Rightarrow> bool" where
  "is_hex c = (c \<in> set ''0123456789abcdefABCDEF'')"

definition UUID_V4_REGEX :: "string \<Rightarrow> bool" where
  "UUID_V4_REGEX s =
     (length s = 36
      \<and> list_all is_hex (take 8 s) \<and> s ! 8 = CHR ''-''
      \<and> list_all is_hex (take 4 (drop 9 s)) \<and> s ! 13 = CHR ''-''
      \<and> s ! 14 \<in> set ''12345'' \<and> list_all is_hex (take 3 (drop 15 s)) \<and> s ! 18 = CHR ''-''
      \<and> s ! 19 \<in> set ''89abAB'' \<and> list_all is_hex (take 3 (drop 20 s)) \<and> s ! 23 = CHR ''-''
      \<and> list_all is_hex (drop 24 s))"

text \<open>\<open>UUID_V4_REGEX.test(v)\<close> converts \<open>v\<close> to a string first.\<close>

definition UUID_V4_REGEX_test :: "json \<Rightarrow> js_error + bool" where
  "UUID_V4_REGEX_test v =
     (case js_ToString v of Inl err \<Rightarrow> Inl err | Inr s \<Rightarrow> Inr (UUID_V4_REGEX s))"

text \<open>\<open>v ?? ''\<close>\<close>

fun nullish_or_empty :: "json option \<Rightarrow> json" where
  "nullish_or_empty None = JStr []"
| "nullish_or_empty (Some JNull) = JStr []"
| "nullish_or_empty (Some v) = v"

text \<open>
  \<open>s.trim().length === 0\<close>: the string consists of white space and line terminators
  only. \<open>white_space_prefix s\<close> is the number of bytes of the white space character that
  \<open>s\<close> starts with, 0 if it starts with none: the ASCII ones, U+00A0, U+1680,
  U+2000 to U+200A, U+2028, U+2029, U+202F, U+205F, U+3000 and U+FEFF.
\<close>

definition white_space_prefix :: "string \<Rightarrow> nat" where
  "white_space_prefix s =
     (if s \<noteq> [] \<and> hd s \<in> set [CHR 0x09, CHR 0x0A, CHR 0x0B, CHR 0x0C, CHR 0x0D, CHR 0x20] then 1
      else if take 2 s = [CHR 0xC2, CHR 0xA0] then 2
      else if take 3 s \<in> set
          [[CHR 0xE1, CHR 0x9A, CHR 0x80],
           [CHR 0xE2, CHR 0x80, CHR 0x80], [CHR 0xE2, CHR 0x80, CHR 0x81],
           [CHR 0xE2, CHR 0x80, CHR 0x82], [CHR 0xE2, CHR 0x80, CHR 0x83],
           [CHR 0xE2, CHR 0x80, CHR 0x84], [CHR 0xE2, CHR 0x80, CHR 0x85],
           [CHR 0xE2, CHR 0x80, CHR 0x86], [CHR 0xE2, CHR 0x80, CHR 0x87],
           [CHR 0xE2, CHR 0x80, CHR 0x88], [CHR 0xE2, CHR 0x80, CHR 0x89],
           [CHR 0xE2, CHR 0x80, CHR 0x8A], [CHR 0xE2, CHR 0x80, CHR 0xA8],
           [CHR 0xE2, CHR 0x80, CHR 0xA9], [CHR 0xE2, CHR 0x80, CHR 0xAF],
           [CHR 0xE2, CHR 0x81, CHR 0x9F], [CHR 0xE3, CHR 0x80, CHR 0x80],
           [CHR 0xEF, CHR 0xBB, CHR 0xBF]] then 3
      else 0)"

function trims_to_empty :: "string \<Rightarrow> bool" where
  "trims_to_empty s =
     (if s = [] then True
      else if white_space_prefix s = 0 then False
      else trims_to_empty (drop (white_space_prefix s) s))"
  by pat_completeness auto
termination
  by (relation "measure length") auto

declare trims_to_empty.simps [simp del]

fun string_of :: "json option \<Rightarrow> string" where
  "string_of (Some (JStr s)) = s"
| "string_of _ = []"

definition isIsoDateString :: "Date \<Rightarrow> json option \<Rightarrow> bool" where
  "isIsoDateString D v =
     (if typeof v \<noteq> ''string'' then False else getTime D (string_of v) \<noteq> NaN)"

definition not_plain_object :: "json option \<Rightarrow> bool" where
  \<comment> \<open>\<open>!v || typeof v !== 'object' || Array.isArray(v)\<close>\<close>
  "not_plain_object v = (falsy v \<or> typeof v \<noteq> ''object'' \<or> isArray v)"

definition validateEventEnvelope :: "Date \<Rightarrow> json \<Rightarrow> js_error + string list" where
  "validateEventEnvelope D body =
     (if not_plain_object (Some body) then Inr [''Request body must be a JSON object.'']
      else
        (case UUID_V4_REGEX_test (nullish_or_empty (get_property body ''event_id'')) of
           Inl err \<Rightarrow> Inl err
         | Inr matched \<Rightarrow>
             Inr ((if \<not> matched then [''event_id must be a valid UUID.''] else [])
                @ (if typeof (get_property body ''type'') \<noteq> ''string''
                      \<or> trims_to_empty (string_of (get_property body ''type''))
                   then [''type must be a non-empty string.''] else [])
                @ (if \<not> isIsoDateString D (get_property body ''ts'')
                   then [''ts must be a valid ISO-8601 timestamp string.''] else [])
                @ (if not_plain_object (get_property body ''payload'')
                   then [''payload must be a JSON object.''] else [])
                @ (if get_property body ''device_id'' \<noteq> None \<and> typeof (get_property body ''device_id'') \<noteq> ''string''
                   then [''device_id must be a string when provided.''] else [])
                @ (if get_property body ''meta'' \<noteq> None \<and> not_plain_object (get_property body ''meta'')
                   then [''meta must be an object when provided.''] else []))))"

section \<open>Marking events processed\<close>

text \<open>
  Of a row of the \<open>events\<close> table the handler of \<open>POST /events/process\<close> reads \<open>eventId\<close>
  and reads and writes \<open>processedAt\<close>. The table is the list of its rows.
  \<open>prisma.event.updateMany\<close> writes \<open>data\<close> to every row that \<open>where\<close> selects and returns
  how many rows that were.
\<close>

record event_row =
  eventId :: string
  processedAt :: "int option"

datatype process_reply = Bad_Request | Processed nat int

text \<open>
  \<open>processEventsSchema.safeParse(request.body)\<close>: the body is an object whose \<open>event_ids\<close>
  is an array of 1 to 1000 strings, each of which the validation library accepts as a
  UUID (the library's test is the parameter \<open>is_uuid\<close>).
\<close>

fun uuid_strings :: "(string \<Rightarrow> bool) \<Rightarrow> json list \<Rightarrow> string list option" where
  "uuid_strings is_uuid [] = Some []"
| "uuid_strings is_uuid (JStr s # xs) =
     (if is_uuid s
      then (case uuid_strings is_uuid xs of None \<Rightarrow> None | Some ss \<Rightarrow> Some (s # ss))
      else None)"
| "uuid_strings is_uuid (_ # xs) = None"

fun processEventsSchema :: "(string \<Rightarrow> bool) \<Rightarrow> json option \<Rightarrow> string list option" where
  "processEventsSchema is_uuid (Some (JObj kvs)) =
     (case map_of kvs ''event_ids'' of
        Some (JArr xs) \<Rightarrow>
          (if 1 \<le> length xs \<and> length xs \<le> 1000 then uuid_strings is_uuid xs else None)
      | _ \<Rightarrow> None)"
| "processEventsSchema is_uuid _ = None"

definition selected :: "string list \<Rightarrow> event_row \<Rightarrow> bool" where
  \<comment> \<open>\<open>where: { eventId: { in: event_ids }, processedAt: null }\<close>\<close>
  "selected eids r = (eventId r \<in> set eids \<and> processedAt r = None)"

definition updateMany :: "string list \<Rightarrow> int \<Rightarrow> event_row list \<Rightarrow> event_row list \<times> nat" where
  "updateMany eids now rows =
     (map (\<lambda>r. if selected eids r then r\<lparr>processedAt := Some now\<rparr> else r) rows,
      length (filter (selected eids) rows))"

definition post_events_process ::
    "(string \<Rightarrow> bool) \<Rightarrow> int \<Rightarrow> json option \<Rightarrow> event_row list \<Rightarrow> process_reply \<times> event_row list" where
  "post_events_process is_uuid now body rows =
     (case processEventsSchema is_uuid body of
        None \<Rightarrow> (Bad_Request, rows)
      | Some eids \<Rightarrow>
          (case updateMany eids now rows of
             (rows', n) \<Rightarrow> (Processed n now, rows')))"

section \<open>A Date runtime for the worked examples\<close>

text \<open>
  The worked examples need one concrete runtime. \<open>iso_Date tz\<close> reads the ECMAScript
  date-time format with an explicit zone, \<open>YYYY-MM-DDTHH:mm:ss\<close>, an optional \<open>.sss\<close>, and
  \<open>Z\<close> or \<open>+HH:mm\<close> or \<open>-HH:mm\<close>; every other string is no date. Its local zone is the fixed
  offset of \<open>tz\<close> minutes. On these strings every ECMAScript implementation gives the same
  time value.
\<close>

definition digit_value :: "char \<Rightarrow> nat option" where
  "digit_value c =
     map_of [(CHR ''0'', 0), (CHR ''1'', 1), (CHR ''2'', 2), (CHR ''3'', 3), (CHR ''4'', 4),
             (CHR ''5'', 5), (CHR ''6'', 6), (CHR ''7'', 7), (CHR ''8'', 8), (CHR ''9'', 9)] c"

fun digits_value :: "nat \<Rightarrow> string \<Rightarrow> nat option" where
  "digits_value acc [] = Some acc"
| "digits_value acc (c # cs) =
     (case digit_value c of None \<Rightarrow> None | Some d \<Rightarrow> digits_value (10 * acc + d) cs)"

definition field :: "string \<Rightarrow> nat \<Rightarrow> nat \<Rightarrow> nat option" where
  "field s i n = (if length s < i + n then None else digits_value 0 (take n (drop i s)))"

definition is_leap :: "nat \<Rightarrow> bool" where
  "is_leap y = (y mod 4 = 0 \<and> (y mod 100 \<noteq> 0 \<or> y mod 400 = 0))"

definition days_in_month :: "nat \<Rightarrow> nat \<Rightarrow> nat" where
  "days_in_month y m =
     (if m = 2 then (if is_leap y then 29 else 28)
      else if m = 4 \<or> m = 6 \<or> m = 9 \<or> m = 11 then 30 else 31)"

definition days_from_civil :: "int \<Rightarrow> int \<Rightarrow> int \<Rightarrow> int" where
  "days_from_civil y m d =
     (let y1 = (if m \<le> 2 then y - 1 else y);
          era = y1 div 400;
          yoe = y1 - era * 400;
          doy = (153 * (if m > 2 then m - 3 else m + 9) + 2) div 5 + d - 1;
          doe = yoe * 365 + yoe div 4 - yoe div 100 + doy
      in era * 146097 + doe - 719468)"

definition parse_zone :: "string \<Rightarrow> int option" where
  "parse_zone z =
     (if z = ''Z'' then Some 0
      else if length z = 6 \<and> (z ! 0 = CHR ''+'' \<or> z ! 0 = CHR ''-'') \<and> z ! 3 = CHR '':''
      then (case (field z 1 2, field z 4 2) of
              (Some h, Some m) \<Rightarrow>
                if h < 24 \<and> m < 60
                then Some ((if z ! 0 = CHR ''-'' then - 1 else 1) * (int h * 60 + int m))
                else None
            | _ \<Rightarrow> None)
      else None)"

definition parse_fraction :: "string \<Rightarrow> (nat \<times> string) option" where
  "parse_fraction r =
     (if r \<noteq> [] \<and> hd r = CHR ''.''
      then (case field r 1 3 of None \<Rightarrow> None | Some ms \<Rightarrow> Some (ms, drop 4 r))
      else Some (0, r))"

definition iso_parse :: "string \<Rightarrow> number" where
  "iso_parse s =
     (if length s < 20 \<or> s ! 4 \<noteq> CHR ''-'' \<or> s ! 7 \<noteq> CHR ''-'' \<or> s ! 10 \<noteq> CHR ''T''
         \<or> s ! 13 \<noteq> CHR '':'' \<or> s ! 16 \<noteq> CHR '':'' then NaN
      else
        (case (field s 0 4, field s 5 2, field s 8 2, field s 11 2, field s 14 2, field s 17 2,
               parse_fraction (drop 19 s)) of
           (Some y, Some mo, Some d, Some h, Some mi, Some sec, Some (ms, z)) \<Rightarrow>
             (case parse_zone z of
                None \<Rightarrow> NaN
              | Some off \<Rightarrow>
                  if 1 \<le> mo \<and> mo \<le> 12 \<and> 1 \<le> d \<and> d \<le> days_in_month y mo
                     \<and> h < 24 \<and> mi < 60 \<and> sec < 60
                  then Num ((((days_from_civil (int y) (int mo) (int d) * 24 + int h) * 60
                               + int mi - off) * 60 + int sec) * 1000 + int ms)
                  else NaN)
         | _ \<Rightarrow> NaN))"

definition civil_from_days :: "int \<Rightarrow> int \<times> int \<times> int" where
  "civil_from_days z0 =
     (let z = z0 + 719468;
          era = z div 146097;
          doe = z - era * 146097;
          yoe = (doe - doe div 1460 + doe div 36524 - doe div 146096) div 365;
          doy = doe - (365 * yoe + yoe div 4 - yoe div 100);
          mp = (5 * doy + 2) div 153;
          d = doy - (153 * mp + 2) div 5 + 1;
          m = (if mp < 10 then mp + 3 else mp - 9);
          y = yoe + era * 400 + (if m \<le> 2 then 1 else 0)
      in (y, m, d))"

definition iso_year :: "int \<Rightarrow> string" where
  "iso_year y =
     (if 0 \<le> y \<and> y \<le> 9999 then padStart 4 CHR ''0'' (nat_toString (nat y))
      else (if y < 0 then ''-'' else ''+'') @ padStart 6 CHR ''0'' (nat_toString (nat \<bar>y\<bar>)))"

definition iso_format :: "int \<Rightarrow> string" where
  "iso_format t =
     (case civil_from_days (t div 86400000) of
        (y, m, d) \<Rightarrow>
          iso_year y @ ''-'' @ padStart 2 CHR ''0'' (nat_toString (nat m))
          @ ''-'' @ padStart 2 CHR ''0'' (nat_toString (nat d))
          @ ''T'' @ padStart 2 CHR ''0'' (nat_toString (nat ((t div 3600000) mod 24)))
          @ '':'' @ padStart 2 CHR ''0'' (nat_toString (nat ((t div 60000) mod 60)))
          @ '':'' @ padStart 2 CHR ''0'' (nat_toString (nat ((t div 1000) mod 60)))
          @ ''.'' @ padStart 3 CHR ''0'' (nat_toString (nat (t mod 1000))) @ ''Z'')"

definition iso_Date :: "int \<Rightarrow> Date" where
  "iso_Date tz =
     \<lparr>getTime = iso_parse, localTZA = (\<lambda>t. tz * 60000), toISOString = iso_format\<rparr>"

section \<open>Data of the worked examples\<close>

text \<open>The local zone is UTC+9, as in the repository's tests.\<close>

definition JST :: Date where
  "JST = iso_Date 540"

definition location_event :: "string \<Rightarrow> string \<Rightarrow> string \<Rightarrow> string \<Rightarrow> RawEvent" where
  "location_event i t ev p =
     \<lparr>event_id = i, RawEvent.type = ''location'', ts = t,
      RawEvent.payload = \<lparr>event = ev, LocationPayload.place_id = p\<rparr>\<rparr>"

definition other_event :: "string \<Rightarrow> string \<Rightarrow> string \<Rightarrow> RawEvent" where
  "other_event i ty t =
     \<lparr>event_id = i, RawEvent.type = ty, ts = t,
      RawEvent.payload = \<lparr>event = [], LocationPayload.place_id = []\<rparr>\<rparr>"

definition mixed_batch :: "RawEvent list" where
  "mixed_batch =
     [location_event ''ggg-1'' ''2025-02-23T10:00:00+09:00'' ''enter'' ''home'',
      other_event ''ggg-2'' ''email'' ''2025-02-23T10:05:00+09:00'',
      other_event ''ggg-3'' ''todo'' ''2025-02-23T10:10:00+09:00'']"

definition stay_enter :: RawEvent where
  "stay_enter = location_event ''aaa-1'' ''2025-02-23T10:00:00+09:00'' ''enter'' ''home''"

definition stay_exit :: RawEvent where
  "stay_exit = location_event ''aaa-2'' ''2025-02-23T10:30:00+09:00'' ''exit'' ''home''"

definition stay_segment :: StaySegment where
  "stay_segment =
     \<lparr>StaySegment.place_id = ''home'', enter_at = ''2025-02-23T10:00:00+09:00'',
      exit_at = Some ''2025-02-23T10:30:00+09:00'', duration_min = Some (Num 30)\<rparr>"

definition reentry_first :: RawEvent where
  "reentry_first = location_event ''r-1'' ''2025-02-23T10:00:00+09:00'' ''enter'' ''home''"

definition reentry_second :: RawEvent where
  "reentry_second = location_event ''r-2'' ''2025-02-23T10:05:00+09:00'' ''enter'' ''home''"

definition unmatched_enter :: RawEvent where
  "unmatched_enter = location_event ''x-1'' ''2025-02-23T10:00:00+09:00'' ''enter'' ''home''"

definition unmatched_exit :: RawEvent where
  "unmatched_exit = location_event ''x-2'' ''2025-02-23T10:05:00+09:00'' ''exit'' ''office''"

definition dwell_elsewhere :: RawEvent where
  "dwell_elsewhere = location_event ''w-2'' ''2025-02-23T10:05:00+09:00'' ''dwell'' ''office''"

text \<open>The batches of three tests of the repository.\<close>

definition two_stays_batch :: "RawEvent list" where
  "two_stays_batch =
     [location_event ''ccc-1'' ''2025-02-23T08:00:00+09:00'' ''enter'' ''home'',
      location_event ''ccc-2'' ''2025-02-23T09:00:00+09:00'' ''exit'' ''home'',
      location_event ''ccc-3'' ''2025-02-23T09:30:00+09:00'' ''enter'' ''office'',
      location_event ''ccc-4'' ''2025-02-23T18:00:00+09:00'' ''exit'' ''office'']"

definition dwell_batch :: "RawEvent list" where
  "dwell_batch =
     [location_event ''ddd-1'' ''2025-02-23T10:00:00+09:00'' ''enter'' ''office'',
      location_event ''ddd-2'' ''2025-02-23T10:15:00+09:00'' ''dwell'' ''office'',
      location_event ''ddd-3'' ''2025-02-23T10:30:00+09:00'' ''exit'' ''office'']"

text \<open>One instant written with two offsets.\<close>

definition two_offsets_batch :: "RawEvent list" where
  "two_offsets_batch =
     [location_event ''z-1'' ''2025-02-23T10:00:00+09:00'' ''enter'' ''home'',
      location_event ''z-2'' ''2025-02-23T01:00:00Z'' ''exit'' ''home'']"

definition two_offsets_segment :: StaySegment where
  "two_offsets_segment =
     \<lparr>StaySegment.place_id = ''home'', enter_at = ''2025-02-23T10:00:00+09:00'',
      exit_at = Some ''2025-02-23T01:00:00Z'', duration_min = Some (Num 0)\<rparr>"

text \<open>
  Two request bodies whose \<open>event_id\<close> is no string: an object with a property named
  \<open>toString\<close>, and an array that holds one UUID.
\<close>

definition toString_id_body :: json where
  "toString_id_body =
     JObj [(''event_id'', JObj [(''toString'', JNum ''0'')]),
           (''type'', JStr ''location''),
           (''ts'', JStr ''2025-02-23T10:30:00+09:00''),
           (''payload'', JObj [])]"

definition array_id_body :: json where
  "array_id_body =
     JObj [(''event_id'', JArr [JStr ''550e8400-e29b-41d4-a716-446655440000'']),
           (''type'', JStr ''location''),
           (''ts'', JStr ''2025-02-23T10:30:00+09:00''),
           (''payload'', JObj [])]"

definition process_body :: json where
  "process_body = JObj [(''event_ids'', JArr [JStr ''550e8400-e29b-41d4-a716-446655440000''])]"

definition sample_rows :: "event_row list" where
  "sample_rows =
     [\<lparr>eventId = ''550e8400-e29b-41d4-a716-446655440000'', processedAt = None\<rparr>,
      \<lparr>eventId = ''550e8400-e29b-41d4-a716-446655440001'', processedAt = None\<rparr>]"

section \<open>Notions of the specification\<close>

text \<open>
  The instant of an event is the time value of its \<open>ts\<close>. An event is dated when its \<open>ts\<close>
  is a date, which the data model requires of every event: \<open>ts\<close> is checked at ingestion
  and stored as a time.
\<close>

fun time_of :: "number \<Rightarrow> int" where
  "time_of (Num t) = t"
| "time_of NaN = 0"

definition instant :: "Date \<Rightarrow> RawEvent \<Rightarrow> int" where
  "instant D e = time_of (getTime D (ts e))"

definition dated :: "Date \<Rightarrow> RawEvent \<Rightarrow> bool" where
  "dated D e = (getTime D (ts e) \<noteq> NaN)"

text \<open>Rounding to the nearest integer, a half going away from zero.\<close>

definition round_half_away_from_zero :: "real \<Rightarrow> int" where
  "round_half_away_from_zero x = (if 0 \<le> x then \<lfloor>x + 1 / 2\<rfloor> else \<lceil>x - 1 / 2\<rceil>)"

text \<open>
  A segment is open when its \<open>exit_at\<close> is \<open>null\<close>; it is an instant segment when it ends
  where it starts and lasts 0 minutes, as the segment of an unmatched exit does.
\<close>

definition is_open :: "StaySegment \<Rightarrow> bool" where
  "is_open s = (exit_at s = None)"

definition is_instant :: "StaySegment \<Rightarrow> bool" where
  "is_instant s = (exit_at s = Some (enter_at s) \<and> duration_min s = Some (Num 0))"

text \<open>At most one segment is open, and if one is, it is the last one.\<close>

definition at_most_one_open_and_last :: "StaySegment list \<Rightarrow> bool" where
  "at_most_one_open_and_last sgs =
     (length (filter is_open sgs) \<le> 1 \<and> (filter is_open sgs = [] \<or> is_open (last sgs)))"

text \<open>
  A dwell switches place when it arrives while the scan holds a segment of another
  place; \<open>dwell_switch_free D st es\<close> says that no event of \<open>es\<close> does so when the scan
  runs over \<open>es\<close> from the state \<open>st\<close>.
\<close>

definition dwell_switches :: "scan_state \<Rightarrow> RawEvent \<Rightarrow> bool" where
  "dwell_switches st e =
     (event (RawEvent.payload e) = ''dwell'' \<and>
      (case cur st of
         None \<Rightarrow> False
       | Some i \<Rightarrow>
           StaySegment.place_id (segs st ! i) \<noteq> LocationPayload.place_id (RawEvent.payload e)))"

fun dwell_switch_free :: "Date \<Rightarrow> scan_state \<Rightarrow> RawEvent list \<Rightarrow> bool" where
  "dwell_switch_free D st [] = True"
| "dwell_switch_free D st (e # es) =
     (\<not> dwell_switches st e \<and> dwell_switch_free D (scan_step D st e) es)"

text \<open>
  The message as the specification words it: a segment is rendered as an interval when
  it is closed and its span is not zero, that is, when its two ends are different
  instants, and as an arrival otherwise.
\<close>

definition has_span :: "Date \<Rightarrow> StaySegment \<Rightarrow> bool" where
  "has_span D seg =
     (case exit_at seg of None \<Rightarrow> False | Some x \<Rightarrow> getTime D x \<noteq> getTime D (enter_at seg))"

definition render_as_specified :: "Date \<Rightarrow> StaySegment \<Rightarrow> string" where
  "render_as_specified D seg =
     (if has_span D seg
      then formatTime D (enter_at seg) @ ''-'' @ formatTime D (the (exit_at seg))
           @ '' '' @ StaySegment.place_id seg
      else formatTime D (enter_at seg) @ '' '' @ StaySegment.place_id seg @ txt_arrived)"

definition message_as_specified :: "Date \<Rightarrow> StaySegment list \<Rightarrow> string" where
  "message_as_specified D sgs =
     (if sgs = [] then ''[LocationDigest] '' @ txt_no_events
      else ''[LocationDigest] '' @ join txt_arrow (map (render_as_specified D) sgs))"

text \<open>
  The envelope rules as the specification lists them: the body is an object, \<open>event_id\<close>
  is a string of the UUID shape, \<open>type\<close> is a string that is not blank, \<open>ts\<close> is a string
  that is a date, \<open>payload\<close> is an object, \<open>device_id\<close> is absent or a string, \<open>meta\<close> is
  absent or an object.
\<close>

fun is_object :: "json option \<Rightarrow> bool" where
  "is_object (Some (JObj kvs)) = True"
| "is_object _ = False"

fun string_with :: "(string \<Rightarrow> bool) \<Rightarrow> json option \<Rightarrow> bool" where
  "string_with P (Some (JStr s)) = P s"
| "string_with P _ = False"

definition envelope_rules_hold :: "Date \<Rightarrow> json \<Rightarrow> bool" where
  "envelope_rules_hold D body =
     (is_object (Some body)
      \<and> string_with UUID_V4_REGEX (get_property body ''event_id'')
      \<and> string_with (\<lambda>s. \<not> trims_to_empty s) (get_property body ''type'')
      \<and> string_with (\<lambda>s. getTime D s \<noteq> NaN) (get_property body ''ts'')
      \<and> is_object (get_property body ''payload'')
      \<and> (get_property body ''device_id'' = None
           \<or> string_with (\<lambda>s. True) (get_property body ''device_id''))
      \<and> (get_property body ''meta'' = None \<or> is_object (get_property body ''meta'')))"

text \<open>
  The number of rows that went from unprocessed to processed between two states of the
  table.
\<close>

definition transitioned :: "event_row list \<Rightarrow> event_row list \<Rightarrow> nat" where
  "transitioned rows rows' =
     length (filter (\<lambda>(r, r'). processedAt r = None \<and> processedAt r' \<noteq> None) (zip rows rows'))"

section \<open>Invariants of the scan\<close>

text \<open>The reference \<open>currentSegment\<close> points into \<open>segments\<close>, at an open segment.\<close>

definition cur_open :: "scan_state \<Rightarrow> bool" where
  "cur_open st =
     (case cur st of
        None \<Rightarrow> True
      | Some i \<Rightarrow> i < length (segs st) \<and> exit_at (segs st ! i) = None)"

text \<open>
  As long as no dwell switches place: without a current segment every segment is
  closed; with one, it is the only open segment and instant segments alone follow it.
\<close>

definition one_open :: "scan_state \<Rightarrow> bool" where
  "one_open st =
     (case cur st of
        None \<Rightarrow> list_all (\<lambda>s. \<not> is_open s) (segs st)
      | Some i \<Rightarrow>
          (\<exists>pre s post. segs st = pre @ s # post \<and> length pre = i \<and> is_open s
             \<and> list_all (\<lambda>s. \<not> is_open s) pre \<and> list_all is_instant post))"

text \<open>
  When the events seen so far are dated and not later than \<open>t\<close>: a segment starts at an
  instant not later than \<open>t\<close>, and a closed one ends at an instant not before its start,
  with the minutes between the two as its duration.
\<close>

definition seg_ok :: "Date \<Rightarrow> int \<Rightarrow> StaySegment \<Rightarrow> bool" where
  "seg_ok D t seg =
     (\<exists>a. getTime D (enter_at seg) = Num a \<and> a \<le> t
        \<and> (case exit_at seg of
             None \<Rightarrow> True
           | Some x \<Rightarrow>
               \<exists>b. getTime D x = Num b \<and> a \<le> b
                 \<and> duration_min seg = Some (Num ((b - a + 30000) div 60000))))"

section \<open>Evaluating the worked examples\<close>

lemmas iso_parse_eval =
  iso_parse_def field_def digit_value_def parse_fraction_def parse_zone_def
  days_from_civil_def days_in_month_def is_leap_def

lemma JST_times:
  "getTime JST ''2025-02-23T10:00:00+09:00'' = Num 1740272400000"
  "getTime JST ''2025-02-23T10:05:00+09:00'' = Num 1740272700000"
  "getTime JST ''2025-02-23T10:10:00+09:00'' = Num 1740273000000"
  "getTime JST ''2025-02-23T10:30:00+09:00'' = Num 1740274200000"
  "getTime JST ''2025-02-23T01:00:00Z'' = Num 1740272400000"
  by (simp_all add: JST_def iso_Date_def iso_parse_eval)

lemma JST_garbage: "getTime JST ''garbage'' = NaN"
  by (simp add: JST_def iso_Date_def iso_parse_def)

lemma nat_toString_small: "n < 10 \<Longrightarrow> nat_toString n = [''0123456789'' ! n]"
  by (simp add: nat_toString.simps)

lemma nat_toString_10: "nat_toString 10 = ''10''"
  by (simp add: nat_toString.simps[of 10] nat_toString_small)

lemma JST_format:
  "formatTime JST ''2025-02-23T10:00:00+09:00'' = ''10:00''"
  "formatTime JST ''2025-02-23T01:00:00Z'' = ''10:00''"
  by (simp_all add: formatTime_def JST_times getHours_def getMinutes_def
      JST_def[THEN arg_cong, of localTZA] iso_Date_def padStart_def
      nat_toString_small nat_toString_10)

lemmas scan_eval =
  aggregateLocationEvents_def locationEvents_def js_sort_def by_ts_def
  scan_def scan_init_def scan_step_def on_enter_def on_dwell_def on_exit_def
  start_segment_def open_segment_def instant_segment_def close_segment_def
  location_event_def other_event_def Let_def

lemmas example_events =
  stay_enter_def stay_exit_def reentry_first_def reentry_second_def
  unmatched_enter_def unmatched_exit_def dwell_elsewhere_def

section \<open>The scan as a fold\<close>

lemma scan_snoc: "scan D (pre @ [e]) = scan_step D (scan D pre) e"
  by (simp add: scan_def)

lemma aggregateLocationEvents_scan:
  "aggregateLocationEvents D events =
     (segs (scan D (locationEvents D events)), ids (scan D (locationEvents D events)))"
  by (simp add: aggregateLocationEvents_def scan_def scan_init_def)

lemma cur_open_init: "cur_open scan_init"
  by (simp add: cur_open_def scan_init_def)

lemma cur_open_step: "cur_open st \<Longrightarrow> cur_open (scan_step D st e)"
  by (auto simp: cur_open_def scan_step_def Let_def on_enter_def on_dwell_def on_exit_def
      start_segment_def open_segment_def instant_segment_def nth_append
      split: option.splits)

lemma cur_open_foldl: "cur_open st \<Longrightarrow> cur_open (foldl (scan_step D) st es)"
  by (induction es arbitrary: st) (simp_all add: cur_open_step)

lemma cur_open_scan: "cur_open (scan D es)"
  by (simp add: scan_def cur_open_foldl cur_open_init)

lemma ids_foldl: "ids (foldl (scan_step D) st es) = ids st @ map event_id es"
proof (induction es arbitrary: st)
  case Nil
  then show ?case by simp
next
  case (Cons e es)
  have "ids (scan_step D st e) = ids st @ [event_id e]"
    by (simp add: scan_step_def Let_def on_enter_def on_dwell_def on_exit_def
        start_segment_def split: option.splits)
  with Cons show ?case by simp
qed

text \<open>\<open>eventIds\<close> lists the location events of the batch, each once, in time order.\<close>

lemma aggregateLocationEvents_eventIds:
  "snd (aggregateLocationEvents D events) = map event_id (locationEvents D events)"
  by (simp add: aggregateLocationEvents_scan scan_def ids_foldl scan_init_def)

section \<open>The tests of the repository\<close>

text \<open>
  The model gives what the repository's tests expect: two stays of 60 and 510 minutes; a
  dwell absorbed into the stay it falls in, with all three ids consumed; the counts of
  the other event types after the location part of the message.
\<close>

lemma JST_test_times:
  "getTime JST ''2025-02-23T08:00:00+09:00'' = Num 1740265200000"
  "getTime JST ''2025-02-23T09:00:00+09:00'' = Num 1740268800000"
  "getTime JST ''2025-02-23T09:30:00+09:00'' = Num 1740270600000"
  "getTime JST ''2025-02-23T18:00:00+09:00'' = Num 1740301200000"
  "getTime JST ''2025-02-23T10:15:00+09:00'' = Num 1740273300000"
  by (simp_all add: JST_def iso_Date_def iso_parse_eval)

lemma test_multiple_segments:
  "fst (aggregateLocationEvents JST two_stays_batch) =
     [\<lparr>StaySegment.place_id = ''home'', enter_at = ''2025-02-23T08:00:00+09:00'',
       exit_at = Some ''2025-02-23T09:00:00+09:00'', duration_min = Some (Num 60)\<rparr>,
      \<lparr>StaySegment.place_id = ''office'', enter_at = ''2025-02-23T09:30:00+09:00'',
       exit_at = Some ''2025-02-23T18:00:00+09:00'', duration_min = Some (Num 510)\<rparr>]"
  by (simp add: two_stays_batch_def scan_eval JST_test_times)

lemma test_dwell_absorbed:
  "aggregateLocationEvents JST dwell_batch =
     ([\<lparr>StaySegment.place_id = ''office'', enter_at = ''2025-02-23T10:00:00+09:00'',
        exit_at = Some ''2025-02-23T10:30:00+09:00'', duration_min = Some (Num 30)\<rparr>],
      [''ddd-1'', ''ddd-2'', ''ddd-3''])"
  by (simp add: dwell_batch_def scan_eval JST_times JST_test_times)

lemma test_non_location_counts:
  "nonLocationSummaryParts mixed_batch
     = [txt_mail @ ''1'' @ txt_count_suffix, txt_task_change @ ''1'' @ txt_count_suffix]"
  by (simp add: nonLocationSummaryParts_def count_of_type_def mixed_batch_def
      location_event_def other_event_def nat_toString_small)

section \<open>What an enter does\<close>

text \<open>
  Claim C4. Let \<open>aggregateLocationEvents\<close> come to the event \<open>e\<close> of its sorted location
  events, after the events \<open>pre\<close>, and let \<open>e\<close> be an enter of place \<open>P\<close> at \<open>t\<close>. If the scan
  holds an open segment, the iteration sets its \<open>exit_at\<close> to \<open>t\<close> and its \<open>duration_min\<close> to
  the rounded minutes from its \<open>enter_at\<close> to \<open>t\<close>; in every case it then appends the
  segment \<open>{place_id: P, enter_at: t, exit_at: null, duration_min: null}\<close> and holds it as the
  open one. Nothing is asked of \<open>P\<close>: an enter of the place that is already open starts a
  second segment. The open segment meant is the one the scan holds in
  \<open>currentSegment\<close>.
\<close>

theorem enter_closes_open_segment_and_starts_new:
  assumes "locationEvents D events = pre @ e # post"
      and "event (RawEvent.payload e) = ''enter''"
  shows "aggregateLocationEvents D events
           = (segs (scan D (pre @ e # post)), ids (scan D (pre @ e # post)))
       \<and> segs (scan D (pre @ [e])) =
           (case cur (scan D pre) of
              None \<Rightarrow> segs (scan D pre)
            | Some i \<Rightarrow>
                (segs (scan D pre))
                  [i := (segs (scan D pre) ! i)
                     \<lparr>exit_at := Some (ts e),
                      duration_min := Some (minutes_between (getTime D (ts e))
                                      (getTime D (enter_at (segs (scan D pre) ! i))))\<rparr>])
           @ [\<lparr>StaySegment.place_id = LocationPayload.place_id (RawEvent.payload e),
               enter_at = ts e, exit_at = None, duration_min = None\<rparr>]
       \<and> cur (scan D (pre @ [e])) = Some (length (segs (scan D pre)))"
proof -
  have agg: "aggregateLocationEvents D events
           = (segs (scan D (pre @ e # post)), ids (scan D (pre @ e # post)))"
    using assms(1) by (simp add: aggregateLocationEvents_scan)
  have inv: "cur_open (scan D pre)" by (rule cur_open_scan)
  show ?thesis
    using agg inv assms(2)
    by (auto simp: scan_snoc scan_step_def Let_def on_enter_def start_segment_def
        open_segment_def close_segment_def cur_open_def split: option.splits)
qed

lemma scan_reentry_first:
  "scan JST [reentry_first] =
     \<lparr>segs = [\<lparr>StaySegment.place_id = ''home'', enter_at = ''2025-02-23T10:00:00+09:00'',
               exit_at = None, duration_min = None\<rparr>],
      ids = [''r-1''], cur = Some 0\<rparr>"
  by (simp add: example_events scan_eval)

lemma locationEvents_reentry:
  "locationEvents JST [reentry_second, reentry_first] = [reentry_first] @ reentry_second # []"
  by (simp add: example_events scan_eval JST_times)

theorem enter_closes_open_segment_and_starts_new_witness:
  "locationEvents JST [reentry_second, reentry_first] = [reentry_first] @ reentry_second # []
   \<and> event (RawEvent.payload reentry_second) = ''enter''
   \<and> segs (scan JST ([reentry_first] @ [reentry_second])) =
       [\<lparr>StaySegment.place_id = ''home'', enter_at = ''2025-02-23T10:00:00+09:00'',
         exit_at = Some ''2025-02-23T10:05:00+09:00'', duration_min = Some (Num 5)\<rparr>,
        \<lparr>StaySegment.place_id = ''home'', enter_at = ''2025-02-23T10:05:00+09:00'',
         exit_at = None, duration_min = None\<rparr>]
   \<and> cur (scan JST ([reentry_first] @ [reentry_second])) = Some 1"
proof -
  have tag: "event (RawEvent.payload reentry_second) = ''enter''"
    by (simp add: reentry_second_def location_event_def)
  from enter_closes_open_segment_and_starts_new[OF locationEvents_reentry tag]
  show ?thesis
    using locationEvents_reentry tag
    by (simp add: scan_reentry_first reentry_second_def location_event_def JST_times)
qed

section \<open>What an exit does\<close>

text \<open>
  Claim C5. Let \<open>aggregateLocationEvents\<close> come to the event \<open>e\<close> of its sorted location
  events, after the events \<open>pre\<close>, and let \<open>e\<close> be an exit of place \<open>P\<close> at \<open>t\<close>. If the scan
  holds no open segment, or one of another place, the iteration appends the instant
  segment \<open>{place_id: P, enter_at: t, exit_at: t, duration_min: 0}\<close> and leaves the open
  segment as it is. If the scan holds an open segment of place \<open>P\<close>, the iteration sets
  its \<open>exit_at\<close> to \<open>t\<close> and its \<open>duration_min\<close> to the rounded minutes from its \<open>enter_at\<close>
  to \<open>t\<close>, and holds no open segment afterwards.
\<close>

theorem exit_closes_matching_or_emits_instant:
  assumes "locationEvents D events = pre @ e # post"
      and "event (RawEvent.payload e) = ''exit''"
  shows "aggregateLocationEvents D events
           = (segs (scan D (pre @ e # post)), ids (scan D (pre @ e # post)))
       \<and> (case cur (scan D pre) of
            None \<Rightarrow>
              segs (scan D (pre @ [e])) =
                segs (scan D pre)
                @ [\<lparr>StaySegment.place_id = LocationPayload.place_id (RawEvent.payload e),
                    enter_at = ts e, exit_at = Some (ts e), duration_min = Some (Num 0)\<rparr>]
              \<and> cur (scan D (pre @ [e])) = None
          | Some i \<Rightarrow>
              if StaySegment.place_id (segs (scan D pre) ! i)
                   = LocationPayload.place_id (RawEvent.payload e)
              then segs (scan D (pre @ [e])) =
                     (segs (scan D pre))
                       [i := (segs (scan D pre) ! i)
                          \<lparr>exit_at := Some (ts e),
                           duration_min := Some (minutes_between (getTime D (ts e))
                                           (getTime D (enter_at (segs (scan D pre) ! i))))\<rparr>]
                   \<and> cur (scan D (pre @ [e])) = None
              else segs (scan D (pre @ [e])) =
                     segs (scan D pre)
                     @ [\<lparr>StaySegment.place_id = LocationPayload.place_id (RawEvent.payload e),
                         enter_at = ts e, exit_at = Some (ts e), duration_min = Some (Num 0)\<rparr>]
                   \<and> cur (scan D (pre @ [e])) = Some i)"
proof -
  have agg: "aggregateLocationEvents D events
           = (segs (scan D (pre @ e # post)), ids (scan D (pre @ e # post)))"
    using assms(1) by (simp add: aggregateLocationEvents_scan)
  show ?thesis
    using agg assms(2)
    by (auto simp: scan_snoc scan_step_def Let_def on_exit_def
        instant_segment_def close_segment_def split: option.splits)
qed

lemma scan_stay_enter:
  "scan JST [stay_enter] =
     \<lparr>segs = [\<lparr>StaySegment.place_id = ''home'', enter_at = ''2025-02-23T10:00:00+09:00'',
               exit_at = None, duration_min = None\<rparr>],
      ids = [''aaa-1''], cur = Some 0\<rparr>"
  by (simp add: example_events scan_eval)

lemma locationEvents_stay:
  "locationEvents JST [stay_exit, stay_enter] = [stay_enter] @ stay_exit # []"
  by (simp add: example_events scan_eval JST_times)

theorem exit_closes_matching_or_emits_instant_witness:
  "locationEvents JST [stay_exit, stay_enter] = [stay_enter] @ stay_exit # []
   \<and> event (RawEvent.payload stay_exit) = ''exit''
   \<and> segs (scan JST ([stay_enter] @ [stay_exit])) = [stay_segment]
   \<and> cur (scan JST ([stay_enter] @ [stay_exit])) = None"
proof -
  have tag: "event (RawEvent.payload stay_exit) = ''exit''"
    by (simp add: stay_exit_def location_event_def)
  from exit_closes_matching_or_emits_instant[OF locationEvents_stay tag]
  show ?thesis
    using locationEvents_stay tag
    by (simp add: scan_stay_enter stay_exit_def stay_segment_def location_event_def JST_times)
qed

text \<open>The other branch, on an exit of a place that is not the open one.\<close>

lemma unmatched_exit_appends_instant:
  "scan JST [unmatched_enter, unmatched_exit] =
     \<lparr>segs = [\<lparr>StaySegment.place_id = ''home'', enter_at = ''2025-02-23T10:00:00+09:00'',
               exit_at = None, duration_min = None\<rparr>,
              \<lparr>StaySegment.place_id = ''office'', enter_at = ''2025-02-23T10:05:00+09:00'',
               exit_at = Some ''2025-02-23T10:05:00+09:00'', duration_min = Some (Num 0)\<rparr>],
      ids = [''x-1'', ''x-2''], cur = Some 0\<rparr>"
  by (simp add: example_events scan_eval)

section \<open>Open segments in the output\<close>

lemma aggregate_unmatched_exit:
  "fst (aggregateLocationEvents JST [unmatched_enter, unmatched_exit]) =
     [\<lparr>StaySegment.place_id = ''home'', enter_at = ''2025-02-23T10:00:00+09:00'',
       exit_at = None, duration_min = None\<rparr>,
      \<lparr>StaySegment.place_id = ''office'', enter_at = ''2025-02-23T10:05:00+09:00'',
       exit_at = Some ''2025-02-23T10:05:00+09:00'', duration_min = Some (Num 0)\<rparr>]"
  by (simp add: example_events scan_eval JST_times)

lemma aggregate_dwell_elsewhere:
  "fst (aggregateLocationEvents JST [unmatched_enter, dwell_elsewhere]) =
     [\<lparr>StaySegment.place_id = ''home'', enter_at = ''2025-02-23T10:00:00+09:00'',
       exit_at = None, duration_min = None\<rparr>,
      \<lparr>StaySegment.place_id = ''office'', enter_at = ''2025-02-23T10:05:00+09:00'',
       exit_at = None, duration_min = None\<rparr>]"
  by (simp add: example_events scan_eval JST_times)

text \<open>
  Claim C2 as stated fails. After an enter at home, an exit from the office leaves the
  open segment first and the instant segment last; and a dwell at the office leaves two
  open segments.
\<close>

theorem open_segment_counterexample:
  "\<not> at_most_one_open_and_last (fst (aggregateLocationEvents JST [unmatched_enter, unmatched_exit]))
   \<and> \<not> at_most_one_open_and_last (fst (aggregateLocationEvents JST [unmatched_enter, dwell_elsewhere]))"
  by (simp add: aggregate_unmatched_exit aggregate_dwell_elsewhere
      at_most_one_open_and_last_def is_open_def)

lemma instant_not_open: "is_instant s \<Longrightarrow> \<not> is_open s"
  by (simp add: is_instant_def is_open_def)

lemma list_all_instant_closed: "list_all is_instant xs \<Longrightarrow> list_all (\<lambda>s. \<not> is_open s) xs"
  by (induction xs) (auto simp: instant_not_open)

lemma one_open_init: "one_open scan_init"
  by (simp add: one_open_def scan_init_def)

lemma closed_close: "\<not> is_open (close_segment D t s)"
  by (simp add: is_open_def close_segment_def)

lemma open_open: "is_open (open_segment p t)"
  by (simp add: is_open_def open_segment_def)

lemma instant_instant: "is_instant (instant_segment p t)"
  by (simp add: is_instant_def instant_segment_def)

lemma one_openI:
  "segs st = pre @ s # post \<Longrightarrow> cur st = Some (length pre) \<Longrightarrow> is_open s \<Longrightarrow>
   list_all (\<lambda>s. \<not> is_open s) pre \<Longrightarrow> list_all is_instant post \<Longrightarrow> one_open st"
  by (auto simp: one_open_def)

lemma one_open_ids: "one_open st \<Longrightarrow> one_open (st\<lparr>ids := xs\<rparr>)"
  by (auto simp: one_open_def split: option.splits)

lemma one_open_start:
  assumes "list_all (\<lambda>s. \<not> is_open s) (segs st)"
  shows "one_open (start_segment p t st)"
proof (rule one_openI)
  show "segs (start_segment p t st) = segs st @ open_segment p t # []"
    by (simp add: start_segment_def)
  show "cur (start_segment p t st) = Some (length (segs st))"
    by (simp add: start_segment_def)
  show "is_open (open_segment p t)" by (rule open_open)
  show "list_all (\<lambda>s. \<not> is_open s) (segs st)" by (rule assms)
  show "list_all is_instant []" by simp
qed

lemma one_open_step:
  assumes "one_open st" "\<not> dwell_switches st e"
  shows "one_open (scan_step D st e)"
proof -
  let ?p = "LocationPayload.place_id (RawEvent.payload e)"
  let ?st1 = "st\<lparr>ids := ids st @ [event_id e]\<rparr>"
  have inv1: "one_open ?st1" using assms(1) by (rule one_open_ids)
  consider (enter) "event (RawEvent.payload e) = ''enter''"
    | (dwell) "event (RawEvent.payload e) = ''dwell''"
    | (exit) "event (RawEvent.payload e) = ''exit''"
    | (other) "event (RawEvent.payload e) \<noteq> ''enter''" "event (RawEvent.payload e) \<noteq> ''dwell''"
        "event (RawEvent.payload e) \<noteq> ''exit''"
    by blast
  then show ?thesis
  proof cases
    case other
    then have "scan_step D st e = ?st1" by (simp add: scan_step_def Let_def)
    then show ?thesis using inv1 by simp
  next
    case enter
    then have step: "scan_step D st e = on_enter D ?p (ts e) ?st1"
      by (simp add: scan_step_def Let_def)
    show ?thesis
    proof (cases "cur st")
      case None
      then have "list_all (\<lambda>s. \<not> is_open s) (segs ?st1)"
        using assms(1) by (simp add: one_open_def)
      then have "one_open (start_segment ?p (ts e) ?st1)" by (rule one_open_start)
      then show ?thesis using None by (simp add: step on_enter_def)
    next
      case (Some i)
      then obtain pre s post where sg: "segs st = pre @ s # post" and len: "length pre = i"
          and op: "is_open s" and cl: "list_all (\<lambda>s. \<not> is_open s) pre"
          and ins: "list_all is_instant post"
        using assms(1) by (auto simp: one_open_def)
      have nth: "segs st ! i = s" using sg len by auto
      have upd: "(segs st)[i := close_segment D (ts e) s] = pre @ close_segment D (ts e) s # post"
        using sg len by auto
      have ex: "exit_at s = None" using op by (simp add: is_open_def)
      let ?st2 = "?st1\<lparr>segs := pre @ close_segment D (ts e) s # post\<rparr>"
      have "list_all (\<lambda>s. \<not> is_open s) (segs ?st2)"
        using cl list_all_instant_closed[OF ins] closed_close by simp
      then have "one_open (start_segment ?p (ts e) ?st2)" by (rule one_open_start)
      moreover have "on_enter D ?p (ts e) ?st1 = start_segment ?p (ts e) ?st2"
        using Some nth upd ex by (simp add: on_enter_def)
      ultimately show ?thesis by (simp add: step)
    qed
  next
    case dwell
    then have step: "scan_step D st e = on_dwell ?p (ts e) ?st1"
      by (simp add: scan_step_def Let_def)
    show ?thesis
    proof (cases "cur st")
      case None
      then have "list_all (\<lambda>s. \<not> is_open s) (segs ?st1)"
        using assms(1) by (simp add: one_open_def)
      then have "one_open (start_segment ?p (ts e) ?st1)" by (rule one_open_start)
      then show ?thesis using None by (simp add: step on_dwell_def)
    next
      case (Some i)
      then have "StaySegment.place_id (segs st ! i) = ?p"
        using assms(2) dwell by (simp add: dwell_switches_def)
      then have "on_dwell ?p (ts e) ?st1 = ?st1" using Some by (simp add: on_dwell_def)
      then show ?thesis using inv1 by (simp add: step)
    qed
  next
    case exit
    then have step: "scan_step D st e = on_exit D ?p (ts e) ?st1"
      by (simp add: scan_step_def Let_def)
    show ?thesis
    proof (cases "cur st")
      case None
      then have "list_all (\<lambda>s. \<not> is_open s) (segs st)"
        using assms(1) by (simp add: one_open_def)
      then show ?thesis
        using None instant_not_open[OF instant_instant]
        by (simp add: step on_exit_def one_open_def)
    next
      case (Some i)
      then obtain pre s post where sg: "segs st = pre @ s # post" and len: "length pre = i"
          and op: "is_open s" and cl: "list_all (\<lambda>s. \<not> is_open s) pre"
          and ins: "list_all is_instant post"
        using assms(1) by (auto simp: one_open_def)
      have nth: "segs st ! i = s" using sg len by auto
      have upd: "(segs st)[i := close_segment D (ts e) s] = pre @ close_segment D (ts e) s # post"
        using sg len by auto
      show ?thesis
      proof (cases "StaySegment.place_id s = ?p")
        case True
        then have "on_exit D ?p (ts e) ?st1
                     = ?st1\<lparr>segs := pre @ close_segment D (ts e) s # post, cur := None\<rparr>"
          using Some nth upd by (simp add: on_exit_def)
        moreover have "list_all (\<lambda>s. \<not> is_open s) (pre @ close_segment D (ts e) s # post)"
          using cl list_all_instant_closed[OF ins] closed_close by simp
        ultimately show ?thesis by (simp add: step one_open_def)
      next
        case False
        then have eq: "on_exit D ?p (ts e) ?st1
                     = ?st1\<lparr>segs := segs st @ [instant_segment ?p (ts e)]\<rparr>"
          using Some nth by (simp add: on_exit_def)
        have "one_open (?st1\<lparr>segs := segs st @ [instant_segment ?p (ts e)]\<rparr>)"
        proof (rule one_openI)
          show "segs (?st1\<lparr>segs := segs st @ [instant_segment ?p (ts e)]\<rparr>)
                  = pre @ s # (post @ [instant_segment ?p (ts e)])"
            using sg by simp
          show "cur (?st1\<lparr>segs := segs st @ [instant_segment ?p (ts e)]\<rparr>) = Some (length pre)"
            using Some len by simp
          show "is_open s" by (rule op)
          show "list_all (\<lambda>s. \<not> is_open s) pre" by (rule cl)
          show "list_all is_instant (post @ [instant_segment ?p (ts e)])"
            using ins instant_instant by simp
        qed
        then show ?thesis by (simp add: step eq)
      qed
    qed
  qed
qed

lemma one_open_foldl:
  "one_open st \<Longrightarrow> dwell_switch_free D st es \<Longrightarrow> one_open (foldl (scan_step D) st es)"
  by (induction es arbitrary: st) (simp_all add: one_open_step)

text \<open>A batch without dwell events is one in which no dwell switches place.\<close>

lemma no_dwell_switch_free:
  "\<forall>e\<in>set es. event (RawEvent.payload e) \<noteq> ''dwell'' \<Longrightarrow> dwell_switch_free D st es"
  by (induction es arbitrary: st) (simp_all add: dwell_switches_def)

lemma one_open_shape:
  assumes "one_open st"
  shows "length (filter is_open (segs st)) \<le> 1
       \<and> (\<forall>i j. i < j \<and> j < length (segs st) \<and> is_open (segs st ! i) \<longrightarrow> is_instant (segs st ! j))"
proof (cases "cur st")
  case None
  then have cl: "list_all (\<lambda>s. \<not> is_open s) (segs st)" using assms by (simp add: one_open_def)
  then have "filter is_open (segs st) = []" by (simp add: list_all_iff filter_empty_conv)
  moreover have "\<forall>i < length (segs st). \<not> is_open (segs st ! i)"
    using cl by (simp add: list_all_length)
  ultimately show ?thesis by auto
next
  case (Some k)
  then obtain pre s post where sg: "segs st = pre @ s # post" and len: "length pre = k"
      and op: "is_open s" and cl: "list_all (\<lambda>s. \<not> is_open s) pre"
      and ins: "list_all is_instant post"
    using assms by (auto simp: one_open_def)
  have cl_post: "list_all (\<lambda>s. \<not> is_open s) post" using ins by (rule list_all_instant_closed)
  have "filter is_open pre = []" "filter is_open post = []"
    using cl cl_post by (simp_all add: list_all_iff filter_empty_conv)
  then have 1: "length (filter is_open (segs st)) \<le> 1" using sg by simp
  have 2: "is_instant (segs st ! j)" if "i < j" "j < length (segs st)" "is_open (segs st ! i)" for i j
  proof -
    have "\<not> i < k" using that(3) cl len sg by (auto simp: nth_append list_all_length)
    moreover have "\<not> k < i"
    proof
      assume "k < i"
      then have "segs st ! i = post ! (i - k - 1)" and "i - k - 1 < length post"
        using sg len that(1,2) by (auto simp: nth_append nth_Cons')
      then show False using cl_post that(3) by (auto simp: list_all_length)
    qed
    ultimately have "i = k" by simp
    then have "segs st ! j = post ! (j - k - 1)" and "j - k - 1 < length post"
      using sg len that(1,2) by (auto simp: nth_append nth_Cons')
    then show ?thesis using ins by (auto simp: list_all_length)
  qed
  from 1 2 show ?thesis by blast
qed

text \<open>
  Claim C2, amended. For every input in which no dwell arrives while the scan holds a
  segment of another place, the segments that \<open>aggregateLocationEvents\<close> returns contain
  at most one open segment, and every segment after an open one is an instant segment
  (\<open>exit_at = enter_at\<close>, \<open>duration_min = 0\<close>), as an unmatched exit emits it.
\<close>

theorem at_most_one_open_then_instants:
  assumes "dwell_switch_free D scan_init (locationEvents D events)"
  shows "length (filter is_open (fst (aggregateLocationEvents D events))) \<le> 1
       \<and> (\<forall>i j. i < j \<and> j < length (fst (aggregateLocationEvents D events))
                \<and> is_open (fst (aggregateLocationEvents D events) ! i)
              \<longrightarrow> is_instant (fst (aggregateLocationEvents D events) ! j))"
proof -
  have "one_open (scan D (locationEvents D events))"
    unfolding scan_def using one_open_init assms by (rule one_open_foldl)
  then have "length (filter is_open (segs (scan D (locationEvents D events)))) \<le> 1
       \<and> (\<forall>i j. i < j \<and> j < length (segs (scan D (locationEvents D events)))
                \<and> is_open (segs (scan D (locationEvents D events)) ! i)
              \<longrightarrow> is_instant (segs (scan D (locationEvents D events)) ! j))"
    by (rule one_open_shape)
  then show ?thesis unfolding aggregateLocationEvents_scan fst_conv .
qed

lemma unmatched_exit_switch_free:
  "dwell_switch_free JST scan_init (locationEvents JST [unmatched_enter, unmatched_exit])"
  by (simp add: example_events scan_eval JST_times dwell_switches_def)

theorem at_most_one_open_then_instants_witness:
  "dwell_switch_free JST scan_init (locationEvents JST [unmatched_enter, unmatched_exit])
   \<and> length (filter is_open (fst (aggregateLocationEvents JST [unmatched_enter, unmatched_exit]))) \<le> 1
   \<and> is_open (fst (aggregateLocationEvents JST [unmatched_enter, unmatched_exit]) ! 0)
   \<and> is_instant (fst (aggregateLocationEvents JST [unmatched_enter, unmatched_exit]) ! 1)"
proof -
  have len: "length (fst (aggregateLocationEvents JST [unmatched_enter, unmatched_exit])) = 2"
    and op: "is_open (fst (aggregateLocationEvents JST [unmatched_enter, unmatched_exit]) ! 0)"
    by (simp_all add: aggregate_unmatched_exit is_open_def)
  from at_most_one_open_then_instants[OF unmatched_exit_switch_free] len op
  show ?thesis using unmatched_exit_switch_free by auto
qed

section \<open>The sort on dated events\<close>

lemma dated_Num: "dated D e \<Longrightarrow> getTime D (ts e) = Num (instant D e)"
  by (cases "getTime D (ts e)") (auto simp: dated_def instant_def)

lemma insert_sorted_insort_key:
  "dated D x \<Longrightarrow> \<forall>y\<in>set ys. dated D y \<Longrightarrow>
   insert_sorted (by_ts D) x ys = insort_key (instant D) x ys"
proof (induction ys)
  case Nil
  then show ?case by simp
next
  case (Cons y ys)
  have "comparator_positive (by_ts D x y) = (\<not> instant D x \<le> instant D y)"
    using Cons.prems by (auto simp: by_ts_def dated_Num)
  with Cons show ?case by simp
qed

lemma js_sort_sort_key:
  "\<forall>x\<in>set xs. dated D x \<Longrightarrow> js_sort (by_ts D) xs = sort_key (instant D) xs"
proof (induction xs)
  case Nil
  then show ?case by (simp add: js_sort_def)
next
  case (Cons x xs)
  have ih: "foldr (insert_sorted (by_ts D)) xs [] = sort_key (instant D) xs"
    using Cons by (simp add: js_sort_def)
  have "\<forall>y\<in>set (sort_key (instant D) xs). dated D y" using Cons.prems by simp
  then show ?case
    using Cons.prems ih by (simp add: js_sort_def insert_sorted_insort_key)
qed

lemma locationEvents_sort_key:
  assumes "\<forall>e\<in>set events. RawEvent.type e = ''location'' \<longrightarrow> dated D e"
  shows "locationEvents D events
           = sort_key (instant D) (filter (\<lambda>e. RawEvent.type e = ''location'') events)"
  unfolding locationEvents_def using assms by (intro js_sort_sort_key) auto

lemma sort_key_unique:
  assumes "mset xs = mset ys" and "distinct (map f xs)"
  shows "sort_key f xs = sort_key f ys"
proof -
  have set_eq: "set xs = set ys" using assms(1) by (rule mset_eq_setD)
  have inj: "inj_on f (set xs)" using assms(2) by (simp add: distinct_map)
  have "mset (map f xs) = mset (map f ys)" using assms(1) by simp
  then have dy: "distinct (map f ys)" using assms(2) by (metis mset_eq_imp_distinct_iff)
  have "map f (sort_key f xs) = map f (sort_key f ys)"
  proof (rule sorted_distinct_set_unique)
    show "sorted (map f (sort_key f xs))" by simp
    show "sorted (map f (sort_key f ys))" by simp
    show "distinct (map f (sort_key f xs))" using assms(2) by (simp add: distinct_map)
    show "distinct (map f (sort_key f ys))" using dy by (simp add: distinct_map)
    show "set (map f (sort_key f xs)) = set (map f (sort_key f ys))" using set_eq by simp
  qed
  moreover have "inj_on f (set (sort_key f xs) \<union> set (sort_key f ys))"
    using inj set_eq by simp
  ultimately show ?thesis by (simp add: inj_on_map_eq_map)
qed

section \<open>The duration of a closed segment\<close>

text \<open>
  On a span that is not negative, \<open>Math.round\<close> of the minutes is the rounding that
  sends a half away from zero. On a negative span the two differ (a minute and a half
  back gives \<open>-1\<close>, not \<open>-2\<close>), but the scan meets its events in time order and never
  closes a segment before its start.
\<close>

lemma round_minutes:
  assumes "0 \<le> d"
  shows "(d + 30000) div 60000 = round_half_away_from_zero (real_of_int d / 60000)"
    and "0 \<le> (d + 30000) div 60000"
proof -
  have "real_of_int d / 60000 + 1 / 2 = real_of_int (d + 30000) / real_of_int 60000"
    by (simp add: field_simps)
  then have "\<lfloor>real_of_int d / 60000 + 1 / 2\<rfloor> = (d + 30000) div 60000"
    by (simp only: floor_divide_of_int_eq)
  then show "(d + 30000) div 60000 = round_half_away_from_zero (real_of_int d / 60000)"
    using assms by (simp add: round_half_away_from_zero_def)
  show "0 \<le> (d + 30000) div 60000" using assms by (simp add: pos_imp_zdiv_nonneg_iff)
qed

lemma Math_round_negative_half:
  "minutes_between (Num 0) (Num 90000) = Num (- 1)
   \<and> round_half_away_from_zero (real_of_int (0 - 90000) / 60000) = - 2"
proof -
  have "real_of_int (0 - 90000) / 60000 - 1 / 2 = real_of_int (- 2)" by simp
  then have "\<lceil>real_of_int (0 - 90000) / 60000 - 1 / 2\<rceil> = - 2" by (simp only: ceiling_of_int)
  then show ?thesis by (simp add: round_half_away_from_zero_def)
qed

lemma seg_ok_mono: "seg_ok D t seg \<Longrightarrow> t \<le> t' \<Longrightarrow> seg_ok D t' seg"
  by (auto simp: seg_ok_def)

lemma seg_ok_close:
  "seg_ok D t seg \<Longrightarrow> getTime D x = Num te \<Longrightarrow> t \<le> te \<Longrightarrow> seg_ok D te (close_segment D x seg)"
  by (auto simp: seg_ok_def close_segment_def)

lemma seg_ok_open: "getTime D x = Num te \<Longrightarrow> seg_ok D te (open_segment p x)"
  by (simp add: seg_ok_def open_segment_def)

lemma seg_ok_instant: "getTime D x = Num te \<Longrightarrow> seg_ok D te (instant_segment p x)"
  by (simp add: seg_ok_def instant_segment_def)

lemma seg_ok_update:
  assumes "\<forall>s\<in>set xs. seg_ok D t s" "seg_ok D t y"
  shows "\<forall>s\<in>set (xs[i := y]). seg_ok D t s"
  using assms set_update_subset_insert[of xs i y] by auto

lemma seg_ok_step:
  assumes all: "\<forall>s\<in>set (segs st). seg_ok D t s"
      and inv: "cur_open st"
      and te: "getTime D (ts e) = Num te" and le: "t \<le> te"
  shows "\<forall>s\<in>set (segs (scan_step D st e)). seg_ok D te s"
proof -
  have all': "\<forall>s\<in>set (segs st). seg_ok D te s"
    using all le by (blast intro: seg_ok_mono)
  have closed: "\<And>i. cur st = Some i \<Longrightarrow>
      \<forall>s\<in>set ((segs st)[i := close_segment D (ts e) (segs st ! i)]). seg_ok D te s"
  proof -
    fix i assume "cur st = Some i"
    then have "i < length (segs st)" using inv by (simp add: cur_open_def)
    then have "seg_ok D t (segs st ! i)" using all by simp
    then have "seg_ok D te (close_segment D (ts e) (segs st ! i))"
      using te le by (rule seg_ok_close)
    with all' show "\<forall>s\<in>set ((segs st)[i := close_segment D (ts e) (segs st ! i)]). seg_ok D te s"
      by (rule seg_ok_update)
  qed
  show ?thesis
    using all' closed seg_ok_open[OF te] seg_ok_instant[OF te]
    by (auto simp: scan_step_def Let_def on_enter_def on_dwell_def on_exit_def
        start_segment_def split: option.splits)
qed

lemma seg_ok_foldl:
  assumes "\<forall>s\<in>set (segs st). seg_ok D t s" "cur_open st"
      and "sorted (map (instant D) es)"
      and "\<forall>e\<in>set es. dated D e \<and> t \<le> instant D e"
  shows "\<exists>t'. \<forall>s\<in>set (segs (foldl (scan_step D) st es)). seg_ok D t' s"
  using assms
proof (induction es arbitrary: st t)
  case Nil
  then show ?case by auto
next
  case (Cons e es)
  have te: "getTime D (ts e) = Num (instant D e)" using Cons.prems(4) by (simp add: dated_Num)
  have le: "t \<le> instant D e" using Cons.prems(4) by simp
  have 1: "\<forall>s\<in>set (segs (scan_step D st e)). seg_ok D (instant D e) s"
    using seg_ok_step[OF Cons.prems(1,2) te le] .
  have 2: "cur_open (scan_step D st e)" using Cons.prems(2) by (rule cur_open_step)
  have 3: "sorted (map (instant D) es)" using Cons.prems(3) by simp
  have 4: "\<forall>e'\<in>set es. dated D e' \<and> instant D e \<le> instant D e'"
    using Cons.prems(3,4) by auto
  show ?case using Cons.IH[OF 1 2 3 4] by simp
qed

text \<open>
  Claim C3. Let the location events of the batch be dated. Then every segment that
  \<open>aggregateLocationEvents\<close> returns with a non-null \<open>exit_at\<close> starts and ends at
  instants \<open>a\<close> and \<open>b\<close>, and its \<open>duration_min\<close> is \<open>(b - a) / 60000\<close> rounded to the nearest
  integer, a half going away from zero; this number is not negative.
\<close>

theorem closed_segment_duration:
  assumes "\<forall>e\<in>set events. RawEvent.type e = ''location'' \<longrightarrow> getTime D (ts e) \<noteq> NaN"
      and "seg \<in> set (fst (aggregateLocationEvents D events))"
      and "exit_at seg = Some x"
  shows "\<exists>a b. getTime D (enter_at seg) = Num a \<and> getTime D x = Num b
           \<and> duration_min seg = Some (Num (round_half_away_from_zero (real_of_int (b - a) / 60000)))
           \<and> 0 \<le> round_half_away_from_zero (real_of_int (b - a) / 60000)"
proof -
  let ?loc = "filter (\<lambda>e. RawEvent.type e = ''location'') events"
  let ?es = "locationEvents D events"
  have dated: "\<forall>e\<in>set events. RawEvent.type e = ''location'' \<longrightarrow> dated D e"
    using assms(1) by (simp add: dated_def)
  have es: "?es = sort_key (instant D) ?loc" using dated by (rule locationEvents_sort_key)
  have sorted: "sorted (map (instant D) ?es)" by (simp add: es)
  have all_dated: "\<forall>e\<in>set ?es. dated D e" using dated by (auto simp: es)
  obtain t0 where t0: "\<forall>e\<in>set ?es. dated D e \<and> t0 \<le> instant D e"
  proof (cases "?es = []")
    case True
    then show ?thesis using that by simp
  next
    case False
    have "\<forall>e\<in>set ?es. Min (instant D ` set ?es) \<le> instant D e" by simp
    with all_dated show ?thesis using that by blast
  qed
  have "\<exists>t'. \<forall>s\<in>set (segs (foldl (scan_step D) scan_init ?es)). seg_ok D t' s"
    by (rule seg_ok_foldl[where t = t0])
       (simp_all add: scan_init_def cur_open_init[unfolded scan_init_def] sorted t0)
  then obtain t' where "\<forall>s\<in>set (segs (scan D ?es)). seg_ok D t' s"
    by (auto simp: scan_def)
  moreover have "seg \<in> set (segs (scan D ?es))"
    using assms(2) by (simp add: aggregateLocationEvents_scan)
  ultimately have "seg_ok D t' seg" by blast
  then obtain a b where a: "getTime D (enter_at seg) = Num a" and b: "getTime D x = Num b"
      and le: "a \<le> b" and dur: "duration_min seg = Some (Num ((b - a + 30000) div 60000))"
    using assms(3) by (auto simp: seg_ok_def)
  from le have "0 \<le> b - a" by simp
  from round_minutes[OF this] a b dur show ?thesis by auto
qed

lemma aggregate_stay:
  "aggregateLocationEvents JST [stay_exit, stay_enter] = ([stay_segment], [''aaa-1'', ''aaa-2''])"
  by (simp add: example_events stay_segment_def scan_eval JST_times)

lemma stay_dated:
  "list_all (\<lambda>e. RawEvent.type e = ''location'' \<longrightarrow> getTime JST (ts e) \<noteq> NaN) [stay_exit, stay_enter]"
  by (simp add: example_events location_event_def JST_times)

theorem closed_segment_duration_witness:
  "list_all (\<lambda>e. RawEvent.type e = ''location'' \<longrightarrow> getTime JST (ts e) \<noteq> NaN) [stay_exit, stay_enter]
   \<and> stay_segment \<in> set (fst (aggregateLocationEvents JST [stay_exit, stay_enter]))
   \<and> exit_at stay_segment = Some ''2025-02-23T10:30:00+09:00''
   \<and> duration_min stay_segment = Some (Num 30)
   \<and> (\<exists>a b. getTime JST (enter_at stay_segment) = Num a
         \<and> getTime JST ''2025-02-23T10:30:00+09:00'' = Num b
         \<and> duration_min stay_segment
             = Some (Num (round_half_away_from_zero (real_of_int (b - a) / 60000)))
         \<and> 0 \<le> round_half_away_from_zero (real_of_int (b - a) / 60000))"
proof -
  have h1: "\<forall>e\<in>set [stay_exit, stay_enter].
              RawEvent.type e = ''location'' \<longrightarrow> getTime JST (ts e) \<noteq> NaN"
    using stay_dated by (simp add: list_all_iff)
  have h2: "stay_segment \<in> set (fst (aggregateLocationEvents JST [stay_exit, stay_enter]))"
    by (simp add: aggregate_stay)
  have h3: "exit_at stay_segment = Some ''2025-02-23T10:30:00+09:00''"
    and h4: "duration_min stay_segment = Some (Num 30)"
    by (simp_all add: stay_segment_def)
  from closed_segment_duration[OF h1 h2 h3] stay_dated h2 h3 h4 show ?thesis by blast
qed

section \<open>Independence of the arrival order\<close>

text \<open>
  Claim C10. Let two batches hold the same events in any two orders, let their location
  events be dated, and let no two of the location events have the same instant. Then
  \<open>aggregateLocationEvents\<close> returns the same segments in the same order and the same
  \<open>eventIds\<close> in the same order for both.
\<close>

theorem aggregateLocationEvents_order_independent:
  assumes "mset events = mset events'"
      and "\<forall>e\<in>set events. RawEvent.type e = ''location'' \<longrightarrow> getTime D (ts e) \<noteq> NaN"
      and "distinct (map (instant D) (filter (\<lambda>e. RawEvent.type e = ''location'') events))"
  shows "aggregateLocationEvents D events = aggregateLocationEvents D events'"
proof -
  let ?loc = "\<lambda>e. RawEvent.type e = ''location''"
  have set_eq: "set events = set events'" using assms(1) by (rule mset_eq_setD)
  have d1: "\<forall>e\<in>set events. RawEvent.type e = ''location'' \<longrightarrow> dated D e"
    using assms(2) by (simp add: dated_def)
  then have d2: "\<forall>e\<in>set events'. RawEvent.type e = ''location'' \<longrightarrow> dated D e"
    using set_eq by simp
  have "mset (filter ?loc events) = mset (filter ?loc events')"
    using assms(1) by simp
  then have "sort_key (instant D) (filter ?loc events) = sort_key (instant D) (filter ?loc events')"
    using assms(3) by (rule sort_key_unique)
  then have "locationEvents D events = locationEvents D events'"
    by (simp add: locationEvents_sort_key[OF d1] locationEvents_sort_key[OF d2])
  then show ?thesis by (simp add: aggregateLocationEvents_def)
qed

theorem aggregateLocationEvents_order_independent_witness:
  "mset [stay_exit, stay_enter] = mset [stay_enter, stay_exit]
   \<and> list_all (\<lambda>e. RawEvent.type e = ''location'' \<longrightarrow> getTime JST (ts e) \<noteq> NaN) [stay_exit, stay_enter]
   \<and> distinct (map (instant JST) (filter (\<lambda>e. RawEvent.type e = ''location'') [stay_exit, stay_enter]))
   \<and> aggregateLocationEvents JST [stay_enter, stay_exit] = ([stay_segment], [''aaa-1'', ''aaa-2''])"
proof -
  have h1: "mset [stay_exit, stay_enter] = mset [stay_enter, stay_exit]" by simp
  have h2: "\<forall>e\<in>set [stay_exit, stay_enter].
              RawEvent.type e = ''location'' \<longrightarrow> getTime JST (ts e) \<noteq> NaN"
    using stay_dated by (simp add: list_all_iff)
  have h3: "distinct (map (instant JST)
              (filter (\<lambda>e. RawEvent.type e = ''location'') [stay_exit, stay_enter]))"
    by (simp add: example_events location_event_def instant_def JST_times)
  from aggregateLocationEvents_order_independent[OF h1 h2 h3] aggregate_stay h1 stay_dated h3
  show ?thesis by simp
qed

section \<open>The digest: event ids and period\<close>

lemma Math_min_valid:
  "x0 \<noteq> NaN \<Longrightarrow> \<forall>x\<in>set xs. x \<noteq> NaN \<Longrightarrow>
   Math_min x0 xs = Num (Min (time_of ` set (x0 # xs)))"
  unfolding Math_min_def
proof (induction xs arbitrary: x0)
  case Nil
  then show ?case by (cases x0) auto
next
  case (Cons y ys)
  obtain a where a: "x0 = Num a" using Cons.prems(1) by (cases x0) auto
  obtain b where b: "y = Num b" using Cons.prems(2) by (cases y) auto
  have "foldl Math_min2 (Num (min a b)) ys = Num (Min (time_of ` set (Num (min a b) # ys)))"
    using Cons.IH[of "Num (min a b)"] Cons.prems(2) by simp
  moreover have "Min (time_of ` set (Num (min a b) # ys)) = Min (time_of ` set (x0 # y # ys))"
    by (cases "set ys = {}") (auto simp: a b min.assoc)
  ultimately show ?case by (simp add: a b)
qed

lemma Math_max_valid:
  "x0 \<noteq> NaN \<Longrightarrow> \<forall>x\<in>set xs. x \<noteq> NaN \<Longrightarrow>
   Math_max x0 xs = Num (Max (time_of ` set (x0 # xs)))"
  unfolding Math_max_def
proof (induction xs arbitrary: x0)
  case Nil
  then show ?case by (cases x0) auto
next
  case (Cons y ys)
  obtain a where a: "x0 = Num a" using Cons.prems(1) by (cases x0) auto
  obtain b where b: "y = Num b" using Cons.prems(2) by (cases y) auto
  have "foldl Math_max2 (Num (max a b)) ys = Num (Max (time_of ` set (Num (max a b) # ys)))"
    using Cons.IH[of "Num (max a b)"] Cons.prems(2) by simp
  moreover have "Max (time_of ` set (Num (max a b) # ys)) = Max (time_of ` set (x0 # y # ys))"
    by (cases "set ys = {}") (auto simp: a b max.assoc)
  ultimately show ?case by (simp add: a b)
qed

text \<open>
  An event whose \<open>ts\<close> is no date is outside the data model; on such a batch
  \<open>toISOString\<close> throws.
\<close>

lemma generateDigest_undated:
  "generateDigest JST ''u'' [location_event ''x'' ''garbage'' ''enter'' ''home''] = Inl RangeError"
  by (simp add: generateDigest_def location_event_def JST_garbage Math_min_def)

text \<open>
  Claim C1. The empty batch gives no digest. For a non-empty batch of dated events,
  \<open>generateDigest\<close> returns a digest whose \<open>payload.event_ids\<close> is the list of the
  \<open>event_id\<close> of every event of the batch, of every type and in batch order, and whose
  \<open>period_start\<close> and \<open>period_end\<close> are the ISO renderings of the least and of the
  greatest instant of the batch.
\<close>

theorem generateDigest_event_ids_and_period:
  "generateDigest D uuid [] = Inr None \<and>
   (events \<noteq> [] \<and> (\<forall>e\<in>set events. getTime D (ts e) \<noteq> NaN) \<longrightarrow>
      (\<exists>d. generateDigest D uuid events = Inr (Some d)
         \<and> event_ids (DigestResult.payload d) = map event_id events
         \<and> period_start (DigestResult.payload d) = toISOString D (Min (instant D ` set events))
         \<and> period_end (DigestResult.payload d) = toISOString D (Max (instant D ` set events))))"
proof (intro conjI impI)
  show "generateDigest D uuid [] = Inr None" by (simp add: generateDigest_def)
next
  assume h: "events \<noteq> [] \<and> (\<forall>e\<in>set events. getTime D (ts e) \<noteq> NaN)"
  then obtain e es where ev: "events = e # es" by (cases events) auto
  have v0: "getTime D (ts e) \<noteq> NaN" using h ev by simp
  have vs: "\<forall>x\<in>set (map (\<lambda>e. getTime D (ts e)) es). x \<noteq> NaN" using h ev by simp
  have img: "time_of ` set (getTime D (ts e) # map (\<lambda>e. getTime D (ts e)) es) = instant D ` set events"
    by (auto simp: ev instant_def)
  have mn: "Math_min (getTime D (ts e)) (map (\<lambda>e. getTime D (ts e)) es) = Num (Min (instant D ` set events))"
    using Math_min_valid[OF v0 vs] img by simp
  have mx: "Math_max (getTime D (ts e)) (map (\<lambda>e. getTime D (ts e)) es) = Num (Max (instant D ` set events))"
    using Math_max_valid[OF v0 vs] img by simp
  show "\<exists>d. generateDigest D uuid events = Inr (Some d)
         \<and> event_ids (DigestResult.payload d) = map event_id events
         \<and> period_start (DigestResult.payload d) = toISOString D (Min (instant D ` set events))
         \<and> period_end (DigestResult.payload d) = toISOString D (Max (instant D ` set events))"
    using mn mx by (simp add: generateDigest_def ev Let_def)
qed

lemma mixed_batch_dated:
  "mixed_batch \<noteq> [] \<and> (\<forall>e\<in>set mixed_batch. getTime JST (ts e) \<noteq> NaN)"
  by (simp add: mixed_batch_def location_event_def other_event_def JST_times)

theorem generateDigest_event_ids_and_period_witness:
  "mixed_batch \<noteq> [] \<and> list_all (\<lambda>e. getTime JST (ts e) \<noteq> NaN) mixed_batch
   \<and> (\<exists>d. generateDigest JST ''u-1'' mixed_batch = Inr (Some d)
         \<and> event_ids (DigestResult.payload d) = [''ggg-1'', ''ggg-2'', ''ggg-3'']
         \<and> period_start (DigestResult.payload d) = toISOString JST (Min (instant JST ` set mixed_batch))
         \<and> period_end (DigestResult.payload d) = toISOString JST (Max (instant JST ` set mixed_batch)))"
proof -
  have ids: "map event_id mixed_batch = [''ggg-1'', ''ggg-2'', ''ggg-3'']"
    by (simp add: mixed_batch_def location_event_def other_event_def)
  from generateDigest_event_ids_and_period[of JST "''u-1''" mixed_batch] mixed_batch_dated
  show ?thesis by (simp add: list_all_iff ids)
qed

section \<open>The digest message\<close>

lemma two_offsets_segment_arises:
  "fst (aggregateLocationEvents JST two_offsets_batch) = [two_offsets_segment]"
  by (simp add: two_offsets_batch_def two_offsets_segment_def scan_eval JST_times)

text \<open>
  Claim C6 as stated fails. A segment that starts and ends at one instant written with
  two offsets has a span of zero and lasts 0 minutes, and is rendered as an interval
  all the same: the source compares the two timestamps as text.
\<close>

theorem zero_span_segment_counterexample:
  "buildDigestMessage JST [two_offsets_segment] = ''[LocationDigest] 10:00-10:00 home''
   \<and> message_as_specified JST [two_offsets_segment] = ''[LocationDigest] 10:00 home'' @ txt_arrived
   \<and> buildDigestMessage JST [two_offsets_segment] \<noteq> message_as_specified JST [two_offsets_segment]"
  by (simp add: buildDigestMessage_def message_as_specified_def render_segment_def
      render_as_specified_def has_span_def two_offsets_segment_def JST_times JST_format
      txt_arrived_def)

text \<open>
  Claim C6, amended. For every segment list, \<open>buildDigestMessage\<close> renders a segment whose
  \<open>exit_at\<close> is a non-empty string that differs, as text, from its \<open>enter_at\<close> as
  \<open><enter HH:MM>-<exit HH:MM> <place_id>\<close>, and every other segment as
  \<open><enter HH:MM> <place_id>\<close> followed by the word for arrival; it joins the renderings
  with the arrow between spaces after the prefix \<open>[LocationDigest] \<close>, and for the empty
  list it returns the prefix followed by the literal for "no events".
\<close>

theorem buildDigestMessage_rendering:
  "buildDigestMessage D sgs =
     (if sgs = [] then ''[LocationDigest] '' @ txt_no_events
      else ''[LocationDigest] '' @ join txt_arrow
        (map (\<lambda>seg. if \<exists>x. exit_at seg = Some x \<and> x \<noteq> [] \<and> x \<noteq> enter_at seg
                    then formatTime D (enter_at seg) @ ''-'' @ formatTime D (the (exit_at seg))
                         @ '' '' @ StaySegment.place_id seg
                    else formatTime D (enter_at seg) @ '' '' @ StaySegment.place_id seg @ txt_arrived)
           sgs))"
proof -
  have "render_segment D seg =
          (if \<exists>x. exit_at seg = Some x \<and> x \<noteq> [] \<and> x \<noteq> enter_at seg
           then formatTime D (enter_at seg) @ ''-'' @ formatTime D (the (exit_at seg))
                @ '' '' @ StaySegment.place_id seg
           else formatTime D (enter_at seg) @ '' '' @ StaySegment.place_id seg @ txt_arrived)" for seg
    by (cases "exit_at seg") (simp_all add: render_segment_def Let_def)
  then show ?thesis by (simp add: buildDigestMessage_def cong: map_cong)
qed

text \<open>
  Where a closed segment never has an empty \<open>exit_at\<close> and equal instants are written the
  same way, as they are once the timestamps come out of \<open>toISOString\<close>, the message is
  the one the specification words.
\<close>

lemma buildDigestMessage_as_specified:
  assumes "\<forall>seg\<in>set sgs. \<forall>x. exit_at seg = Some x \<longrightarrow>
             x \<noteq> [] \<and> (getTime D x = getTime D (enter_at seg) \<longleftrightarrow> x = enter_at seg)"
  shows "buildDigestMessage D sgs = message_as_specified D sgs"
proof -
  have "render_segment D seg = render_as_specified D seg" if "seg \<in> set sgs" for seg
    using assms that
    by (cases "exit_at seg") (auto simp: render_segment_def render_as_specified_def has_span_def)
  then have eq: "map (render_segment D) sgs = map (render_as_specified D) sgs" by simp
  show ?thesis unfolding buildDigestMessage_def message_as_specified_def eq by simp
qed

section \<open>The delivery body\<close>

text \<open>
  Claim C9. \<open>buildOpenClawPayload\<close> returns the body with the message
  \<open>[digest:<digest_id>] <message>\<close>, the name \<open>EventDigest\<close>, the wake mode \<open>now\<close>, \<open>deliver\<close>
  true and the channel \<open>last\<close>; so the message starts with the digest identifier in its
  brackets.
\<close>

theorem buildOpenClawPayload_wire_body:
  "buildOpenClawPayload digest =
     \<lparr>message = ''[digest:'' @ digest_id digest @ ''] '' @ DigestResult.message digest,
      name = ''EventDigest'', wakeMode = ''now'', deliver = True, channel = ''last''\<rparr>
   \<and> (\<exists>rest. OpenClawPayload.message (buildOpenClawPayload digest)
               = ''[digest:'' @ digest_id digest @ rest)"
  by (simp add: buildOpenClawPayload_def)

section \<open>The envelope validator\<close>

text \<open>
  Claim C7 says that \<open>validateEventEnvelope\<close> never throws and reports a violation for
  every malformed \<open>event_id\<close>. The validator hands \<open>event_id\<close> to the regular expression
  without looking at its type, and the test converts it to a string. On the body
  \<open>{"event_id": {"toString": 0}, "type": "location", "ts": "2025-02-23T10:30:00+09:00",
  "payload": {}}\<close> the conversion throws, and so does the validator, in any runtime.
\<close>

theorem validateEventEnvelope_throws_on_object_event_id:
  "validateEventEnvelope D toString_id_body = Inl TypeError"
  by (simp add: validateEventEnvelope_def toString_id_body_def not_plain_object_def
      UUID_V4_REGEX_test_def)

theorem validateEventEnvelope_throws_on_object_event_id_witness:
  "validateEventEnvelope JST toString_id_body = Inl TypeError
   \<and> validateEventEnvelope JST toString_id_body \<noteq> Inr []"
  using validateEventEnvelope_throws_on_object_event_id[of JST] by simp

lemma sample_uuid: "UUID_V4_REGEX ''550e8400-e29b-41d4-a716-446655440000''"
  by (simp add: UUID_V4_REGEX_def is_hex_def)

lemma location_not_blank: "\<not> trims_to_empty ''location''"
  by (simp add: trims_to_empty.simps[of "''location''"] white_space_prefix_def)

text \<open>
  The same conversion turns an array that holds one UUID into that UUID: the validator
  reports nothing, although \<open>event_id\<close> is no string.
\<close>

lemma validateEventEnvelope_accepts_array_event_id:
  "validateEventEnvelope JST array_id_body = Inr []
   \<and> \<not> envelope_rules_hold JST array_id_body"
  by (simp add: validateEventEnvelope_def array_id_body_def not_plain_object_def
      UUID_V4_REGEX_test_def sample_uuid location_not_blank isIsoDateString_def JST_times
      envelope_rules_hold_def)

lemma not_plain_object_iff: "not_plain_object v = (\<not> is_object v)"
  by (cases v rule: is_object.cases) (simp_all add: not_plain_object_def)

lemma type_rule_iff:
  "(typeof v \<noteq> ''string'' \<or> trims_to_empty (string_of v))
     = (\<not> string_with (\<lambda>s. \<not> trims_to_empty s) v)"
  by (cases v rule: typeof.cases) simp_all

lemma ts_rule_iff: "isIsoDateString D v = string_with (\<lambda>s. getTime D s \<noteq> NaN) v"
  by (cases v rule: typeof.cases) (simp_all add: isIsoDateString_def)

lemma device_rule_iff:
  "(v \<noteq> None \<and> typeof v \<noteq> ''string'') = (\<not> (v = None \<or> string_with (\<lambda>s. True) v))"
  by (cases v rule: typeof.cases) simp_all

text \<open>
  Where no conversion takes place, because \<open>event_id\<close> is absent, \<open>null\<close> or a string, the
  validator returns a list, and the list is empty exactly when the rules hold.
\<close>

lemma validateEventEnvelope_without_coercion:
  assumes "get_property body ''event_id'' = None \<or> get_property body ''event_id'' = Some JNull
           \<or> (\<exists>s. get_property body ''event_id'' = Some (JStr s))"
  shows "\<exists>errs. validateEventEnvelope D body = Inr errs
           \<and> (errs = [] \<longleftrightarrow> envelope_rules_hold D body)"
proof -
  have id: "UUID_V4_REGEX_test (nullish_or_empty (get_property body ''event_id''))
              = Inr (string_with UUID_V4_REGEX (get_property body ''event_id''))"
    using assms by (auto simp: UUID_V4_REGEX_test_def UUID_V4_REGEX_def)
  show ?thesis
    unfolding validateEventEnvelope_def id not_plain_object_iff type_rule_iff ts_rule_iff
      device_rule_iff envelope_rules_hold_def
    by simp
qed

section \<open>Marking events processed\<close>

lemma updateMany_length: "length (fst (updateMany eids now rows)) = length rows"
  by (simp add: updateMany_def)

lemma updateMany_nth:
  "i < length rows \<Longrightarrow>
   fst (updateMany eids now rows) ! i
     = (if selected eids (rows ! i) then (rows ! i)\<lparr>processedAt := Some now\<rparr> else rows ! i)"
  by (simp add: updateMany_def)

lemma updateMany_count:
  "snd (updateMany eids now rows) = transitioned rows (fst (updateMany eids now rows))"
  unfolding updateMany_def transitioned_def
  by (induction rows) (auto simp: selected_def)

lemma updateMany_none_selected:
  "filter (selected eids) (fst (updateMany eids now rows)) = []"
  by (auto simp: updateMany_def selected_def filter_empty_conv)

lemma updateMany_again:
  "updateMany eids later (fst (updateMany eids now rows)) = (fst (updateMany eids now rows), 0)"
proof -
  have "\<forall>r \<in> set (fst (updateMany eids now rows)). \<not> selected eids r"
    using updateMany_none_selected[of eids now rows] by (simp add: filter_empty_conv)
  then have "map (\<lambda>r. if selected eids r then r\<lparr>processedAt := Some later\<rparr> else r)
               (fst (updateMany eids now rows)) = fst (updateMany eids now rows)"
    by (simp add: map_idI)
  then show ?thesis
    using updateMany_none_selected[of eids now rows] by (simp add: updateMany_def[of eids later])
qed

text \<open>
  Claim C8. Let the endpoint accept the request, with the event ids \<open>eids\<close>. Then it
  leaves every row that is already processed as it is, sets \<open>processedAt\<close> to the current
  time on the unprocessed rows whose id is among \<open>eids\<close> and on no other row, and replies
  with the number of rows that went from unprocessed to processed. The same request
  sent again, at any later time, replies with the count 0 and leaves the table as it is.
\<close>

theorem markProcessed_only_unprocessed_and_idempotent:
  assumes "processEventsSchema is_uuid body = Some eids"
  shows "\<exists>rows'. post_events_process is_uuid now body rows
                   = (Processed (transitioned rows rows') now, rows')
           \<and> length rows' = length rows
           \<and> (\<forall>i<length rows.
                 eventId (rows' ! i) = eventId (rows ! i)
                 \<and> (processedAt (rows ! i) \<noteq> None \<longrightarrow> rows' ! i = rows ! i)
                 \<and> (processedAt (rows ! i) = None \<longrightarrow>
                      processedAt (rows' ! i)
                        = (if eventId (rows ! i) \<in> set eids then Some now else None)))
           \<and> post_events_process is_uuid later body rows' = (Processed 0 later, rows')"
proof -
  let ?rows' = "fst (updateMany eids now rows)"
  have 1: "post_events_process is_uuid now body rows
             = (Processed (transitioned rows ?rows') now, ?rows')"
    using assms updateMany_count[of eids now rows]
    by (auto simp: post_events_process_def split: prod.splits)
  have 2: "length ?rows' = length rows" by (rule updateMany_length)
  have 3: "\<forall>i<length rows.
             eventId (?rows' ! i) = eventId (rows ! i)
             \<and> (processedAt (rows ! i) \<noteq> None \<longrightarrow> ?rows' ! i = rows ! i)
             \<and> (processedAt (rows ! i) = None \<longrightarrow>
                  processedAt (?rows' ! i)
                    = (if eventId (rows ! i) \<in> set eids then Some now else None))"
    by (auto simp: updateMany_nth selected_def)
  have 4: "post_events_process is_uuid later body ?rows' = (Processed 0 later, ?rows')"
    using assms by (simp add: post_events_process_def updateMany_again)
  from 1 2 3 4 show ?thesis by blast
qed

lemma process_body_parses:
  "processEventsSchema UUID_V4_REGEX (Some process_body)
     = Some [''550e8400-e29b-41d4-a716-446655440000'']"
  by (simp add: process_body_def sample_uuid)

lemma first_call_counts_one:
  "post_events_process UUID_V4_REGEX 1000 (Some process_body) sample_rows
     = (Processed 1 1000,
        [\<lparr>eventId = ''550e8400-e29b-41d4-a716-446655440000'', processedAt = Some 1000\<rparr>,
         \<lparr>eventId = ''550e8400-e29b-41d4-a716-446655440001'', processedAt = None\<rparr>])"
  by (simp add: post_events_process_def process_body_def sample_uuid sample_rows_def
      updateMany_def selected_def)

theorem markProcessed_only_unprocessed_and_idempotent_witness:
  "processEventsSchema UUID_V4_REGEX (Some process_body)
     = Some [''550e8400-e29b-41d4-a716-446655440000'']
   \<and> (\<exists>rows'. post_events_process UUID_V4_REGEX 1000 (Some process_body) sample_rows
                   = (Processed 1 1000, rows')
         \<and> post_events_process UUID_V4_REGEX 2000 (Some process_body) rows'
             = (Processed 0 2000, rows'))"
  using markProcessed_only_unprocessed_and_idempotent
          [OF process_body_parses, of 1000 sample_rows 2000]
    process_body_parses first_call_counts_one
  by auto

end
